(* ===== verification/YTS_Prelude.thy ===== *)
theory YTS_Prelude
  imports Complex_Main "HOL-Library.Multiset" "HOL-Library.Sublist"
begin

text \<open>
  Shared vocabulary of the development: the Python exceptions the program can raise
  (as one datatype, so that every raise of the source is a value \<open>Inl e\<close>), the
  result type \<open>exc + 'a\<close>, and the handful of Python built-ins whose exact behaviour
  the code relies on: list indexing with negative indices, float floor division,
  \<open>int()\<close> of a float, \<open>str.join\<close>, \<open>str.strip\<close> and \<open>str()\<close> of an integer.
  Strings are byte strings (\<open>char\<close> is a byte): Python text is represented by its
  UTF-8 encoding. Seconds (Python floats) are \<open>real\<close>; IEEE rounding is not modelled.
\<close>

named_theorems py_simps "evaluation rules of the modelled Python built-ins"

datatype exc =
    IndexError
  | KeyError string
  | ZeroDivisionError
  | ValueError string
  | TypeError
  | EOFError
  | FileNotFoundError
  | FileExistsError
  | IsADirectoryError
  | JSONDecodeError
  | InvalidInputError
  | TranscriptUnavailable
  | ChainInvocationError string

type_synonym 'a result = "exc + 'a"

subsection \<open>Python built-ins\<close>

text \<open>\<open>xs[i]\<close> on a list of length \<open>n\<close>: the position it denotes, negative indices counting
  from the end; \<open>None\<close> is IndexError.\<close>

definition py_index :: "nat \<Rightarrow> int \<Rightarrow> nat option" where
  "py_index n i =
     (let j = (if i < 0 then int n + i else i)
      in if 0 \<le> j \<and> j < int n then Some (nat j) else None)"

text \<open>\<open>a // b\<close> on floats: the floor of the quotient, ZeroDivisionError for \<open>b = 0\<close>.\<close>

definition py_floordiv :: "real \<Rightarrow> real \<Rightarrow> real result" where
  "py_floordiv a b = (if b = 0 then Inl ZeroDivisionError else Inr (of_int \<lfloor>a / b\<rfloor>))"

text \<open>\<open>int(x)\<close> of a float truncates towards zero.\<close>

definition py_int :: "real \<Rightarrow> int" where
  "py_int x = (if 0 \<le> x then \<lfloor>x\<rfloor> else \<lceil>x\<rceil>)"

text \<open>\<open>sep.join(xs)\<close>.\<close>

fun py_join :: "string \<Rightarrow> string list \<Rightarrow> string" where
  "py_join sep [] = []"
| "py_join sep [s] = s"
| "py_join sep (s # ss) = s @ sep @ py_join sep ss"

text \<open>\<open>print(*args)\<close> with the default separator and line end, on arguments that are
  already strings.\<close>

definition py_print :: "string list \<Rightarrow> string" where
  "py_print args = py_join '' '' args @ [CHR 0x0A]"

text \<open>\<open>str.isspace\<close> on one byte: the ASCII whitespace and the separators 0x1C..0x1F.
  (Non-ASCII Unicode spaces are several bytes in UTF-8 and are not stripped here.)\<close>

definition py_isspace :: "char \<Rightarrow> bool" where
  "py_isspace c \<longleftrightarrow> c \<in> set [CHR 0x20, CHR 0x09, CHR 0x0A, CHR 0x0B, CHR 0x0C, CHR 0x0D,
                               CHR 0x1C, CHR 0x1D, CHR 0x1E, CHR 0x1F]"

text \<open>\<open>s.strip()\<close>.\<close>

definition py_strip :: "string \<Rightarrow> string" where
  "py_strip s = rev (dropWhile py_isspace (rev (dropWhile py_isspace s)))"

text \<open>\<open>str(n)\<close> for a non-negative integer: its decimal digits.\<close>

definition digit_char :: "nat \<Rightarrow> char" where
  "digit_char d = char_of (48 + d)"

fun py_str_nat :: "nat \<Rightarrow> string" where
  "py_str_nat n = (if n < 10 then [digit_char n] else py_str_nat (n div 10) @ [digit_char (n mod 10)])"

declare py_str_nat.simps [simp del]

subsection \<open>Shared lemmas\<close>

lemma py_index_nonneg [py_simps]:
  "0 \<le> i \<Longrightarrow> py_index n i = (if i < int n then Some (nat i) else None)"
  by (simp add: py_index_def)

lemma py_index_Some_less: "py_index n i = Some k \<Longrightarrow> k < n"
  by (auto simp: py_index_def Let_def split: if_splits)

lemma py_floordiv_nonzero [py_simps]:
  "b \<noteq> 0 \<Longrightarrow> py_floordiv a b = Inr (of_int \<lfloor>a / b\<rfloor>)"
  by (simp add: py_floordiv_def)

lemma py_int_of_int [simp, py_simps]: "py_int (of_int k) = k"
  by (simp add: py_int_def)

lemma py_int_floordiv:
  "py_floordiv a b = Inr q \<Longrightarrow> py_int q = \<lfloor>a / b\<rfloor>"
  by (auto simp: py_floordiv_def split: if_splits)

lemma py_join_Cons_Cons [simp]:
  "py_join sep (s # t # ts) = s @ sep @ py_join sep (t # ts)"
  by simp

lemma length_py_join_ge: "s \<in> set ss \<Longrightarrow> length s \<le> length (py_join sep ss)"
proof (induction sep ss rule: py_join.induct)
  case (3 sep s t ts)
  then show ?case by auto
qed auto

lemma py_str_nat_digits: "set (py_str_nat n) \<subseteq> digit_char ` {0..<10}"
proof (induction n rule: py_str_nat.induct)
  case (1 n)
  then show ?case by (subst py_str_nat.simps) auto
qed

lemma digit_char_eval [simp, py_simps]:
  "digit_char 0 = CHR ''0''" "digit_char 1 = CHR ''1''" "digit_char 2 = CHR ''2''"
  "digit_char 3 = CHR ''3''" "digit_char 4 = CHR ''4''" "digit_char 5 = CHR ''5''"
  "digit_char 6 = CHR ''6''" "digit_char 7 = CHR ''7''" "digit_char 8 = CHR ''8''"
  "digit_char 9 = CHR ''9''" "digit_char (Suc 0) = CHR ''1''"
  by (simp_all add: digit_char_def) code_simp+

lemma py_str_nat_nonempty [simp]: "py_str_nat n \<noteq> []"
  by (subst py_str_nat.simps) simp

lemma py_strip_no_space:
  "s \<noteq> [] \<Longrightarrow> \<not> py_isspace (hd s) \<Longrightarrow> \<not> py_isspace (last s) \<Longrightarrow> py_strip s = s"
proof -
  assume ne: "s \<noteq> []" and h: "\<not> py_isspace (hd s)" and l: "\<not> py_isspace (last s)"
  have "dropWhile py_isspace s = s" using ne h by (cases s) auto
  moreover have "dropWhile py_isspace (rev s) = rev s"
    using ne l by (cases "rev s") (auto simp: last_rev[symmetric])
  ultimately show ?thesis by (simp add: py_strip_def)
qed

lemma sorted_map_hd_le: "sorted (map f xs) \<Longrightarrow> x \<in> set xs \<Longrightarrow> f (hd xs) \<le> f x"
  by (cases xs) auto

lemma mset_concat_update_snoc:
  "i < length xss \<Longrightarrow> mset (concat (xss[i := xss ! i @ [x]])) = add_mset x (mset (concat xss))"
proof (induction xss arbitrary: i)
  case (Cons xs xss)
  then show ?case by (cases i) auto
qed simp

lemma concat_filter_nonempty [simp]:
  "concat (filter (\<lambda>xs. xs \<noteq> []) xss) = concat xss"
  by (induction xss) auto

lemma filter_lt_append_eq_le:
  fixes f :: "'a \<Rightarrow> nat"
  shows "sorted (map f xs) \<Longrightarrow> filter (\<lambda>x. f x < k) xs @ filter (\<lambda>x. f x = k) xs = filter (\<lambda>x. f x \<le> k) xs"
proof (induction xs)
  case (Cons x xs)
  then have later: "\<forall>y \<in> set xs. f x \<le> f y" and s: "sorted (map f xs)" by auto
  show ?case
  proof (cases "f x = k")
    case True
    with later have "filter (\<lambda>x. f x < k) xs = []" by (auto simp: filter_empty_conv)
    moreover have "filter (\<lambda>y. f y = k) xs = filter (\<lambda>y. f y \<le> k) xs"
      using later True by (intro filter_cong) auto
    ultimately show ?thesis using True by simp
  next
    case False
    with Cons.IH [OF s] show ?thesis by auto
  qed
qed simp

lemma concat_filter_upt_sorted:
  fixes f :: "'a \<Rightarrow> nat"
  assumes "sorted (map f xs)"
  shows "concat (map (\<lambda>i. filter (\<lambda>x. f x = i) xs) [0..<k]) = filter (\<lambda>x. f x < k) xs"
proof (induction k)
  case (Suc k)
  have "filter (\<lambda>x. f x \<le> k) xs = filter (\<lambda>x. f x < Suc k) xs"
    by (auto intro: filter_cong)
  with Suc filter_lt_append_eq_le [OF assms, of k] show ?case by simp
qed simp

lemma replicate_numeral [py_simps]: "replicate (numeral k) x = x # replicate (pred_numeral k) x"
  by (simp add: numeral_eq_Suc)

lemma map_of_rev_None: "map_of xs k = None \<Longrightarrow> map_of (rev xs) k = None"
  by (simp add: map_of_eq_None_iff)

text \<open>Unfolding set for evaluating concrete runs.\<close>

lemmas py_eval = replicate_numeral py_index_def py_floordiv_def py_int_def py_strip_def py_isspace_def digit_char_def

end
