(* ===== verification/Chunks.thy ===== *)
theory Chunks
  imports YTS_Prelude
begin

text \<open>
  ChunkDivider: \<open>divide_transcriptions_into_chunks\<close> of \<open>yts/utils.py\<close>, called by
  \<open>YoutubeSummarize.prepare\<close> (\<open>src/yts/summarize.py\<close>). Its source is not part of
  \<open>src/\<close>, so it is modelled from the spec (section 4.1): fragments are accumulated in a
  buffer; as soon as the buffer's text (the fragments' texts joined by one space) reaches
  \<open>maxlength\<close> characters the buffer is closed as a chunk, and the next buffer is seeded
  with the last \<open>overlap_length\<close> fragments of the closed one. A buffer that holds new
  fragments when the input runs out is flushed; an empty fragment sequence is an
  \<open>InvalidInputError\<close>. Every chunk closes only after a new fragment has been added,
  which is the forward-progress guarantee the spec asks for.
\<close>

record YoutubeTranscriptType =
  tr_text :: string
  tr_start :: real
  tr_duration :: real

record TranscriptChunkModel = YoutubeTranscriptType +
  chunk_id :: string

type_synonym fragment = YoutubeTranscriptType
type_synonym chunk = TranscriptChunkModel

definition join_texts :: "('a YoutubeTranscriptType_scheme) list \<Rightarrow> string" where
  "join_texts fs = py_join '' '' (map tr_text fs)"

definition last_n :: "nat \<Rightarrow> 'a list \<Rightarrow> 'a list" where
  "last_n n xs = drop (length xs - n) xs"

text \<open>The accumulation loop: \<open>seed\<close> is the overlap carried from the previous chunk,
  \<open>cur\<close> the new fragments added since, the last argument the fragments still to read.
  The result is the list of closed buffers, one per chunk.\<close>

fun chunk_groups :: "nat \<Rightarrow> nat \<Rightarrow> fragment list \<Rightarrow> fragment list \<Rightarrow> fragment list \<Rightarrow> fragment list list" where
  "chunk_groups maxlength ov seed cur [] = (if cur = [] then [] else [seed @ cur])"
| "chunk_groups maxlength ov seed cur (t # ts) =
     (let buf = seed @ cur @ [t]
      in if maxlength \<le> length (join_texts buf)
         then buf # chunk_groups maxlength ov (last_n ov buf) [] ts
         else chunk_groups maxlength ov seed (cur @ [t]) ts)"

definition make_chunk :: "string \<Rightarrow> nat \<Rightarrow> fragment list \<Rightarrow> chunk" where
  "make_chunk id_prefix n g =
     \<lparr>tr_text = join_texts g, tr_start = tr_start (hd g),
      tr_duration = sum_list (map tr_duration g),
      chunk_id = id_prefix @ ''-'' @ py_str_nat n\<rparr>"

definition divide_transcriptions_into_chunks ::
  "fragment list \<Rightarrow> nat \<Rightarrow> nat \<Rightarrow> string \<Rightarrow> chunk list result" where
  "divide_transcriptions_into_chunks ts maxlength overlap_length id_prefix =
     (if ts = [] then Inl InvalidInputError
      else (let gs = chunk_groups maxlength overlap_length [] [] ts
            in Inr (map2 (make_chunk id_prefix) [0..<length gs] gs)))"

text \<open>The call in \<open>YoutubeSummarize.prepare\<close> (\<open>src/yts/summarize.py\<close>, lines 65--73):
  threshold 1000 characters, overlap 5 fragments, the video id as id prefix.\<close>

definition MAXLENGTH :: nat where
  "MAXLENGTH = 1000"

definition OVERLAP_LENGTH :: nat where
  "OVERLAP_LENGTH = 5"

definition prepare_chunks :: "string \<Rightarrow> fragment list \<Rightarrow> chunk list result" where
  "prepare_chunks vid transcriptions =
     divide_transcriptions_into_chunks transcriptions MAXLENGTH OVERLAP_LENGTH vid"

text \<open>Specification side: dropping from each chunk the fragments it shares with its
  predecessor gives back the new fragments of each chunk.\<close>

fun strip_overlap :: "nat \<Rightarrow> fragment list \<Rightarrow> fragment list list \<Rightarrow> fragment list" where
  "strip_overlap ov prev [] = []"
| "strip_overlap ov prev (g # gs) = drop (length (last_n ov prev)) g @ strip_overlap ov g gs"

text \<open>The fragments of the spec's scenario (section 8): x, y, z, two seconds each.\<close>

definition example_fragments :: "fragment list" where
  "example_fragments =
     [\<lparr>tr_text = ''x'', tr_start = 0, tr_duration = 2\<rparr>,
      \<lparr>tr_text = ''y'', tr_start = 2, tr_duration = 2\<rparr>,
      \<lparr>tr_text = ''z'', tr_start = 4, tr_duration = 2\<rparr>]"

definition example_chunks :: "chunk list" where
  "example_chunks =
     [\<lparr>tr_text = ''x y'', tr_start = 0, tr_duration = 4, chunk_id = ''v1-0''\<rparr>,
      \<lparr>tr_text = ''y z'', tr_start = 2, tr_duration = 4, chunk_id = ''v1-1''\<rparr>]"

subsection \<open>Lemmas on the accumulation loop\<close>

lemma length_last_n [simp]: "length (last_n n xs) = min n (length xs)"
  by (simp add: last_n_def)

lemma last_n_Nil [simp]: "last_n n [] = []"
  by (simp add: last_n_def)

lemma chunk_groups_strip_overlap:
  "seed = last_n ov prev \<Longrightarrow>
   strip_overlap ov prev (chunk_groups ml ov seed cur ts) = cur @ ts"
proof (induction ts arbitrary: prev seed cur)
  case Nil
  then show ?case by simp
next
  case (Cons t ts)
  let ?buf = "seed @ cur @ [t]"
  show ?case
  proof (cases "ml \<le> length (join_texts ?buf)")
    case True
    have "strip_overlap ov ?buf (chunk_groups ml ov (last_n ov ?buf) [] ts) = ts"
      using Cons.IH [of "last_n ov ?buf" ?buf "[]"] by simp
    with True Cons.prems show ?thesis by (simp add: Let_def)
  next
    case False
    with Cons.IH [OF Cons.prems, of "cur @ [t]"] show ?thesis by (simp add: Let_def)
  qed
qed

lemma chunk_groups_nonempty:
  "g \<in> set (chunk_groups ml ov seed cur ts) \<Longrightarrow> g \<noteq> []"
  by (induction ml ov seed cur ts rule: chunk_groups.induct)
     (auto simp: Let_def split: if_splits)

lemma chunk_groups_not_Nil:
  "cur @ ts \<noteq> [] \<Longrightarrow> chunk_groups ml ov seed cur ts \<noteq> []"
  by (induction ml ov seed cur ts rule: chunk_groups.induct) (auto simp: Let_def)

text \<open>Every chunk but the last was closed by reaching the threshold.\<close>

lemma chunk_groups_threshold:
  "g \<in> set (butlast (chunk_groups ml ov seed cur ts)) \<Longrightarrow> ml \<le> length (join_texts g)"
proof (induction ml ov seed cur ts rule: chunk_groups.induct)
  case (2 ml ov seed cur t ts)
  then show ?case
    by (auto simp: Let_def split: if_splits dest: in_set_butlastD)
qed (simp split: if_splits)

text \<open>Each chunk starts with the overlap of the one before.\<close>

lemma chunk_groups_seed_prefix:
  "chunk_groups ml ov seed cur ts = g # gs \<Longrightarrow> \<exists>new. new \<noteq> [] \<and> g = seed @ new"
  by (induction ml ov seed cur ts arbitrary: g gs rule: chunk_groups.induct)
     (fastforce simp: Let_def split: if_splits)+

lemma chunk_groups_overlap:
  "successively (\<lambda>g g'. \<exists>new. new \<noteq> [] \<and> g' = last_n ov g @ new) (chunk_groups ml ov seed cur ts)"
proof (induction ml ov seed cur ts rule: chunk_groups.induct)
  case (2 ml ov seed cur t ts)
  let ?buf = "seed @ cur @ [t]"
  show ?case
  proof (cases "ml \<le> length (join_texts ?buf)")
    case True
    then have eq: "chunk_groups ml ov seed cur (t # ts) =
                   ?buf # chunk_groups ml ov (last_n ov ?buf) [] ts"
      by (simp add: Let_def)
    have "successively (\<lambda>g g'. \<exists>new. new \<noteq> [] \<and> g' = last_n ov g @ new)
            (chunk_groups ml ov (last_n ov ?buf) [] ts)"
      using "2.IH"(1) True by (simp add: Let_def)
    then show ?thesis
      unfolding eq
      by (cases "chunk_groups ml ov (last_n ov ?buf) [] ts")
         (auto dest: chunk_groups_seed_prefix)
  next
    case False
    then show ?thesis using "2.IH"(2) by (simp add: Let_def)
  qed
qed simp

lemma chunk_groups_subset:
  "g \<in> set (chunk_groups ml ov seed cur ts) \<Longrightarrow> set g \<subseteq> set (seed @ cur @ ts)"
proof (induction ml ov seed cur ts arbitrary: g rule: chunk_groups.induct)
  case (2 ml ov seed cur t ts)
  have sub: "set (last_n ov (seed @ cur @ [t])) \<subseteq> set (seed @ cur @ [t])"
    unfolding last_n_def by (rule set_drop_subset)
  from 2 sub show ?case
    by (auto simp: Let_def split: if_splits)
qed (auto split: if_splits)

lemma sorted_last_n_append:
  "sorted (map f (xs @ ys)) \<Longrightarrow> sorted (map f (last_n n xs @ ys))"
proof -
  assume "sorted (map f (xs @ ys))"
  moreover have "last_n n xs @ ys = drop (length xs - n) (xs @ ys)"
    by (simp add: last_n_def)
  ultimately show ?thesis
    by (metis drop_map sorted_wrt_drop)
qed

lemma chunk_groups_hd_in:
  "g \<in> set (chunk_groups ml ov seed cur ts) \<Longrightarrow> hd g \<in> set (seed @ cur @ ts)"
proof -
  assume g: "g \<in> set (chunk_groups ml ov seed cur ts)"
  then have "g \<noteq> []" by (rule chunk_groups_nonempty)
  then have "hd g \<in> set g" by simp
  with chunk_groups_subset [OF g] show ?thesis by blast
qed

lemma chunk_groups_hd_sorted:
  "sorted (map f (seed @ cur @ ts)) \<Longrightarrow>
   (\<forall>g \<in> set (chunk_groups ml ov seed cur ts). f (hd (seed @ cur @ ts)) \<le> f (hd g)) \<and>
   sorted (map (\<lambda>g. f (hd g)) (chunk_groups ml ov seed cur ts))"
proof (induction ml ov seed cur ts rule: chunk_groups.induct)
  case (2 ml ov seed cur t ts)
  let ?buf = "seed @ cur @ [t]"
  let ?rest = "chunk_groups ml ov (last_n ov ?buf) [] ts"
  have least: "\<And>g. g \<in> set (chunk_groups ml ov seed cur (t # ts)) \<Longrightarrow>
                  f (hd (seed @ cur @ t # ts)) \<le> f (hd g)"
    using "2.prems" by (blast intro: sorted_map_hd_le dest: chunk_groups_hd_in)
  show ?case
  proof (cases "ml \<le> length (join_texts ?buf)")
    case True
    then have eq: "chunk_groups ml ov seed cur (t # ts) = ?buf # ?rest"
      by (simp add: Let_def)
    have s: "sorted (map f (last_n ov ?buf @ [] @ ts))"
      using sorted_last_n_append [of f ?buf ts ov] "2.prems" by simp
    have IH: "sorted (map (\<lambda>g. f (hd g)) ?rest)"
      using "2.IH"(1) [OF refl True s] by simp
    have hd_buf: "hd (seed @ cur @ t # ts) = hd ?buf"
      by (cases seed; cases cur) simp_all
    have "\<forall>g \<in> set ?rest. f (hd ?buf) \<le> f (hd g)"
      using least hd_buf unfolding eq by simp
    with IH have "sorted (map (\<lambda>g. f (hd g)) (?buf # ?rest))"
      by simp
    with least show ?thesis unfolding eq by blast
  next
    case False
    then have eq: "chunk_groups ml ov seed cur (t # ts) = chunk_groups ml ov seed (cur @ [t]) ts"
      by (simp add: Let_def)
    have "sorted (map f (seed @ (cur @ [t]) @ ts))"
      using "2.prems" by simp
    then have "sorted (map (\<lambda>g. f (hd g)) (chunk_groups ml ov seed (cur @ [t]) ts))"
      using "2.IH"(2) [OF refl False] by simp
    with least show ?thesis unfolding eq by blast
  qed
qed simp

lemma divide_transcriptions_into_chunks_Inr:
  "divide_transcriptions_into_chunks ts ml ov p = Inr cs \<longleftrightarrow>
   ts \<noteq> [] \<and> cs = map2 (make_chunk p) [0..<length (chunk_groups ml ov [] [] ts)]
                              (chunk_groups ml ov [] [] ts)"
  by (auto simp: divide_transcriptions_into_chunks_def Let_def)

lemma map_make_chunk:
  "map tr_text (map2 (make_chunk p) [0..<length gs] gs) = map join_texts gs"
  "map tr_start (map2 (make_chunk p) [0..<length gs] gs) = map (\<lambda>g. tr_start (hd g)) gs"
  "map chunk_id (map2 (make_chunk p) [0..<length gs] gs) = map (\<lambda>i. p @ ''-'' @ py_str_nat i) [0..<length gs]"
  by (auto intro!: nth_equalityI simp: make_chunk_def)

lemma length_map2_upt [simp]: "length (map2 f [0..<length xs] xs) = length xs"
  by simp

lemma divide_chunks_spec_scenario:
  "divide_transcriptions_into_chunks example_fragments 3 1 ''v1'' = Inr example_chunks"
  by (simp add: example_fragments_def example_chunks_def divide_transcriptions_into_chunks_def
                make_chunk_def join_texts_def last_n_def py_str_nat.simps)

lemma prepare_chunks_Nil [simp]: "prepare_chunks v [] = Inl InvalidInputError"
  by (simp add: prepare_chunks_def divide_transcriptions_into_chunks_def)

lemma prepare_chunks_single:
  "prepare_chunks ''v'' [\<lparr>tr_text = ''hi'', tr_start = 0, tr_duration = 1\<rparr>] =
   Inr [\<lparr>tr_text = ''hi'', tr_start = 0, tr_duration = 1, chunk_id = ''v-0''\<rparr>]"
  by (simp add: prepare_chunks_def MAXLENGTH_def OVERLAP_LENGTH_def divide_transcriptions_into_chunks_def
                make_chunk_def join_texts_def py_str_nat.simps)

subsection \<open>Properties of the chunks \<open>prepare\<close> builds\<close>

text \<open>C1: the chunks \<open>prepare\<close> builds are made of fragment groups, chunk \<open>i\<close> being the
  group \<open>i\<close> with its texts joined by spaces, the start of its first fragment, the sum of
  its durations and the id \<open>vid-i\<close>; consecutive groups overlap in exactly the last
  \<open>OVERLAP_LENGTH\<close> fragments of the earlier one followed by at least one new fragment;
  and dropping the overlaps and concatenating gives back the transcript.\<close>

theorem prepare_chunks_structure:
  assumes "prepare_chunks vid ts = Inr cs"
  shows "\<exists>gs. length gs = length cs \<and> (\<forall>i < length cs. cs ! i = make_chunk vid i (gs ! i)) \<and>
              successively (\<lambda>g g'. \<exists>new. new \<noteq> [] \<and> g' = last_n OVERLAP_LENGTH g @ new) gs \<and>
              strip_overlap OVERLAP_LENGTH [] gs = ts"
proof -
  let ?gs = "chunk_groups MAXLENGTH OVERLAP_LENGTH [] [] ts"
  from assms have cs: "cs = map2 (make_chunk vid) [0..<length ?gs] ?gs"
    by (simp add: prepare_chunks_def divide_transcriptions_into_chunks_Inr)
  have "strip_overlap OVERLAP_LENGTH [] ?gs = ts"
    using chunk_groups_strip_overlap [of "[]" OVERLAP_LENGTH "[]" MAXLENGTH "[]" ts] by simp
  moreover have "\<forall>i < length cs. cs ! i = make_chunk vid i (?gs ! i)"
    using cs by simp
  ultimately show ?thesis
    using cs chunk_groups_overlap [of OVERLAP_LENGTH MAXLENGTH "[]" "[]" ts] by auto
qed

text \<open>C2: \<open>prepare\<close> builds at least one chunk, and every chunk except the last holds at
  least \<open>MAXLENGTH\<close> (1000) characters of text: it was closed by the threshold.\<close>

theorem prepare_chunks_threshold:
  assumes "prepare_chunks vid ts = Inr cs"
  shows "cs \<noteq> [] \<and> (\<forall>c \<in> set (butlast cs). MAXLENGTH \<le> length (tr_text c))"
proof -
  let ?gs = "chunk_groups MAXLENGTH OVERLAP_LENGTH [] [] ts"
  from assms have ts: "ts \<noteq> []" and cs: "cs = map2 (make_chunk vid) [0..<length ?gs] ?gs"
    by (simp_all add: prepare_chunks_def divide_transcriptions_into_chunks_Inr)
  have "?gs \<noteq> []" using ts by (simp add: chunk_groups_not_Nil)
  then have ne: "cs \<noteq> []" using cs by (metis length_0_conv length_map2_upt)
  have "map tr_text cs = map join_texts ?gs"
    unfolding cs by (rule map_make_chunk(1))
  then have "map tr_text (butlast cs) = map join_texts (butlast ?gs)"
    by (simp add: map_butlast)
  then have "\<forall>c \<in> set (butlast cs). \<exists>g \<in> set (butlast ?gs). tr_text c = join_texts g"
    by (metis image_iff list.set_map)
  with chunk_groups_threshold have "\<forall>c \<in> set (butlast cs). MAXLENGTH \<le> length (tr_text c)"
    by fastforce
  with ne show ?thesis by blast
qed

text \<open>C3: if the transcript's fragments are in start-time order, so are the chunks.\<close>

theorem prepare_chunks_start_sorted:
  assumes "sorted (map tr_start ts)" and "prepare_chunks vid ts = Inr cs"
  shows "sorted (map tr_start cs)"
proof -
  let ?gs = "chunk_groups MAXLENGTH OVERLAP_LENGTH [] [] ts"
  from assms(2) have cs: "cs = map2 (make_chunk vid) [0..<length ?gs] ?gs"
    by (simp add: prepare_chunks_def divide_transcriptions_into_chunks_Inr)
  have "sorted (map (\<lambda>g. tr_start (hd g)) ?gs)"
    using chunk_groups_hd_sorted [of tr_start "[]" "[]" ts] assms(1) by simp
  moreover have "map tr_start cs = map (\<lambda>g. tr_start (hd g)) ?gs"
    unfolding cs by (rule map_make_chunk(2))
  ultimately show ?thesis by simp
qed

subsection \<open>Witnesses\<close>

theorem prepare_chunks_structure_witness:
  "\<exists>gs. length gs = 1 \<and> strip_overlap OVERLAP_LENGTH [] gs = [\<lparr>tr_text = ''hi'', tr_start = 0, tr_duration = 1\<rparr>]"
  using prepare_chunks_structure [OF prepare_chunks_single] by auto

theorem prepare_chunks_threshold_witness:
  "[\<lparr>tr_text = ''hi'', tr_start = 0::real, tr_duration = 1, chunk_id = ''v-0''\<rparr>] \<noteq> []"
  using prepare_chunks_threshold [OF prepare_chunks_single] by simp

theorem prepare_chunks_start_sorted_witness:
  "sorted (map tr_start [\<lparr>tr_text = ''hi'', tr_start = 0::real, tr_duration = 1, chunk_id = ''v-0''\<rparr>])"
  by (rule prepare_chunks_start_sorted [OF _ prepare_chunks_single]) simp

end
