(* ===== verification/Buckets.thy ===== *)
theory Buckets
  imports Chunks
begin

text \<open>
  TimeBucketer: \<open>YoutubeSummarize._divide_chunks_by_time\<close> (\<open>src/yts/summarize.py\<close>,
  lines 117--127), translated statement by statement. The total time is read from the
  last chunk (IndexError on an empty list), the bucket width is a float floor division
  (ZeroDivisionError when it is zero), each chunk's index is \<open>int(start // delta)\<close>
  clamped to \<open>split_num\<close> (one past the nominal last bucket), a bucket is appended when
  the index reaches the list length, the chunk is appended to the bucket by Python
  indexing (negative indices count from the end), and empty buckets are dropped.
\<close>

text \<open>Lines 122--123: the clamped index of one chunk.\<close>

definition bucket_index :: "real \<Rightarrow> int \<Rightarrow> real \<Rightarrow> int result" where
  "bucket_index delta split_num start =
     (case py_floordiv start delta of
        Inl e \<Rightarrow> Inl e
      | Inr q \<Rightarrow> (let idx = py_int q in Inr (if idx < split_num then idx else split_num)))"

text \<open>Lines 124--126: grow the bucket list if needed, then append to bucket \<open>idx\<close>.\<close>

definition bucket_append :: "chunk list list \<Rightarrow> int \<Rightarrow> chunk \<Rightarrow> chunk list list result" where
  "bucket_append sc idx tc =
     (let sc' = (if int (length sc) < idx + 1 then sc @ [[]] else sc)
      in case py_index (length sc') idx of
           None \<Rightarrow> Inl IndexError
         | Some i \<Rightarrow> Inr (sc'[i := sc' ! i @ [tc]]))"

text \<open>Lines 121--126: the loop over the chunks.\<close>

fun bucket_loop :: "real \<Rightarrow> int \<Rightarrow> chunk list list \<Rightarrow> chunk list \<Rightarrow> chunk list list result" where
  "bucket_loop delta split_num sc [] = Inr sc"
| "bucket_loop delta split_num sc (tc # tcs) =
     (case bucket_index delta split_num (tr_start tc) of
        Inl e \<Rightarrow> Inl e
      | Inr idx \<Rightarrow>
          (case bucket_append sc idx tc of
             Inl e \<Rightarrow> Inl e
           | Inr sc' \<Rightarrow> bucket_loop delta split_num sc' tcs))"

text \<open>Lines 117--127: the whole method; \<open>self.chunks\<close> is the first argument.\<close>

definition divide_chunks_by_time :: "chunk list \<Rightarrow> int \<Rightarrow> chunk list list result" where
  "divide_chunks_by_time chunks split_num =
     (if chunks = [] then Inl IndexError
      else
        (let total_time = tr_start (last chunks) + tr_duration (last chunks)
         in case py_floordiv total_time (of_int split_num) of
              Inl e \<Rightarrow> Inl e
            | Inr delta \<Rightarrow>
                (case bucket_loop delta split_num (replicate (nat split_num) []) chunks of
                   Inl e \<Rightarrow> Inl e
                 | Inr sc \<Rightarrow> Inr (filter (\<lambda>sc. 0 < length sc) sc))))"

text \<open>Abstract specification: with a positive width and non-negative start times, chunk
  \<open>c\<close> belongs to bucket \<open>min \<lfloor>start / delta\<rfloor> split_num\<close>; the result is the list of
  non-empty buckets in index order, each holding its chunks in input order.\<close>

definition bucket_of :: "real \<Rightarrow> int \<Rightarrow> chunk \<Rightarrow> nat" where
  "bucket_of delta split_num c = nat (min \<lfloor>tr_start c / delta\<rfloor> split_num)"

definition bucket_spec :: "real \<Rightarrow> int \<Rightarrow> chunk list \<Rightarrow> chunk list list" where
  "bucket_spec delta split_num cs =
     filter (\<lambda>b. b \<noteq> []) (map (\<lambda>i. filter (\<lambda>c. bucket_of delta split_num c = i) cs)
                              [0..<Suc (nat split_num)])"

text \<open>Ten chunks starting every ten seconds from 0 to 90 s, two seconds long each: the
  scenario of the spec's section 8, with a total time of 92 s.\<close>

definition example_chunk :: "real \<Rightarrow> chunk" where
  "example_chunk s = \<lparr>tr_text = ''t'', tr_start = s, tr_duration = 2, chunk_id = ''v''\<rparr>"

definition example_timeline :: "chunk list" where
  "example_timeline = map example_chunk [0, 10, 20, 30, 40, 50, 60, 70, 80, 90]"

definition example_buckets :: "chunk list list" where
  "example_buckets =
     map (map example_chunk) [[0, 10], [20, 30], [40, 50], [60, 70], [80], [90]]"

subsection \<open>The index of a chunk\<close>

lemma bucket_index_eq:
  "delta \<noteq> 0 \<Longrightarrow> bucket_index delta n s = Inr (min \<lfloor>s / delta\<rfloor> n)"
  by (simp add: bucket_index_def py_floordiv_def min_def Let_def)

lemma bucket_index_zero:
  "bucket_index 0 n s = Inl ZeroDivisionError"
  by (simp add: bucket_index_def py_floordiv_def)

lemma bucket_index_le: "bucket_index delta n s = Inr idx \<Longrightarrow> idx \<le> n"
  by (auto simp: bucket_index_def Let_def split: sum.splits)

lemma bucket_index_bucket_of:
  assumes "0 < delta" "0 \<le> n" "0 \<le> tr_start c"
  shows "bucket_index delta n (tr_start c) = Inr (int (bucket_of delta n c))"
    and "bucket_of delta n c \<le> nat n"
proof -
  have "0 \<le> \<lfloor>tr_start c / delta\<rfloor>" using assms by simp
  then show "bucket_index delta n (tr_start c) = Inr (int (bucket_of delta n c))"
    using assms by (simp add: bucket_index_eq bucket_of_def)
  show "bucket_of delta n c \<le> nat n" by (simp add: bucket_of_def nat_mono)
qed

subsection \<open>One step of the loop\<close>

lemma bucket_append_mset:
  "bucket_append sc idx tc = Inr sc' \<Longrightarrow> mset (concat sc') = add_mset tc (mset (concat sc))"
  by (auto simp: bucket_append_def Let_def mset_concat_update_snoc
           dest: py_index_Some_less split: option.splits if_splits)

lemma bucket_append_length:
  "bucket_append sc idx tc = Inr sc' \<Longrightarrow> idx \<le> n \<Longrightarrow> length sc' \<le> max (length sc) (nat (n + 1))"
  by (auto simp: bucket_append_def Let_def split: option.splits if_splits)

abbreviation bucket_contents :: "real \<Rightarrow> int \<Rightarrow> chunk list \<Rightarrow> nat \<Rightarrow> chunk list list" where
  "bucket_contents delta n ds L \<equiv> map (\<lambda>i. filter (\<lambda>c. bucket_of delta n c = i) ds) [0..<L]"

lemma bucket_append_contents:
  assumes L: "nat n \<le> L" "L \<le> Suc (nat n)" and below: "\<forall>c \<in> set ds. bucket_of delta n c < L"
    and k: "k \<le> nat n" "bucket_of delta n tc = k"
  shows "bucket_append (bucket_contents delta n ds L) (int k) tc =
         Inr (bucket_contents delta n (ds @ [tc]) (max L (Suc k)))"
proof -
  let ?sc = "bucket_contents delta n ds L"
  let ?L' = "max L (Suc k)"
  have empty: "\<And>i. L \<le> i \<Longrightarrow> filter (\<lambda>c. bucket_of delta n c = i) ds = []"
    using below by (fastforce simp: filter_empty_conv)
  have grow: "(if int (length ?sc) < int k + 1 then ?sc @ [[]] else ?sc) = bucket_contents delta n ds ?L'"
  proof (cases "L < Suc k")
    case True
    then have "?L' = Suc L" using L k by simp
    with True empty show ?thesis by simp
  next
    case False
    then show ?thesis by (simp add: max_def)
  qed
  have idx: "py_index ?L' (int k) = Some k" by (simp add: py_index_def)
  have "(bucket_contents delta n ds ?L')[k := bucket_contents delta n ds ?L' ! k @ [tc]] =
        bucket_contents delta n (ds @ [tc]) ?L'"
    using k by (auto intro!: nth_equalityI simp: nth_list_update)
  with grow idx show ?thesis by (simp add: bucket_append_def Let_def)
qed

subsection \<open>The loop\<close>

lemma bucket_loop_mset:
  "bucket_loop delta n sc cs = Inr sc' \<Longrightarrow> mset (concat sc') = mset (concat sc) + mset cs"
proof (induction cs arbitrary: sc)
  case (Cons tc cs)
  then show ?case
    by (auto split: sum.splits dest!: bucket_append_mset)
qed simp

lemma bucket_loop_length:
  "bucket_loop delta n sc cs = Inr sc' \<Longrightarrow> length sc' \<le> max (length sc) (nat (n + 1))"
proof (induction cs arbitrary: sc)
  case (Cons tc cs)
  then show ?case
    by (fastforce split: sum.splits dest: bucket_index_le bucket_append_length)
qed simp

lemma bucket_loop_contents:
  assumes d: "0 < delta" "0 \<le> n"
  shows "\<forall>c \<in> set cs. 0 \<le> tr_start c \<Longrightarrow> nat n \<le> L \<Longrightarrow> L \<le> Suc (nat n) \<Longrightarrow>
         \<forall>c \<in> set ds. bucket_of delta n c < L \<Longrightarrow>
         \<exists>L'. nat n \<le> L' \<and> L' \<le> Suc (nat n) \<and> (\<forall>c \<in> set (ds @ cs). bucket_of delta n c < L') \<and>
              bucket_loop delta n (bucket_contents delta n ds L) cs =
              Inr (bucket_contents delta n (ds @ cs) L')"
proof (induction cs arbitrary: ds L)
  case Nil
  then show ?case by auto
next
  case (Cons tc cs)
  let ?k = "bucket_of delta n tc"
  let ?L = "max L (Suc ?k)"
  have k: "?k \<le> nat n" and idx: "bucket_index delta n (tr_start tc) = Inr (int ?k)"
    using bucket_index_bucket_of [OF d] Cons.prems(1) by auto
  have step: "bucket_append (bucket_contents delta n ds L) (int ?k) tc =
              Inr (bucket_contents delta n (ds @ [tc]) ?L)"
    using bucket_append_contents [OF Cons.prems(2,3,4) k refl] .
  have "nat n \<le> ?L" "?L \<le> Suc (nat n)" "\<forall>c \<in> set (ds @ [tc]). bucket_of delta n c < ?L"
    using Cons.prems k by auto
  with Cons.IH [where ds = "ds @ [tc]" and L = ?L] Cons.prems(1) obtain L' where
    "nat n \<le> L'" "L' \<le> Suc (nat n)" "\<forall>c \<in> set (ds @ [tc] @ cs). bucket_of delta n c < L'"
    "bucket_loop delta n (bucket_contents delta n (ds @ [tc]) ?L) cs =
     Inr (bucket_contents delta n (ds @ [tc] @ cs) L')"
    by auto
  with idx step show ?case by auto
qed

lemma bucket_contents_filter_Suc:
  assumes "nat n \<le> L" "L \<le> Suc (nat n)" "\<forall>c \<in> set cs. bucket_of delta n c < L"
  shows "filter (\<lambda>b. b \<noteq> []) (bucket_contents delta n cs L) =
         filter (\<lambda>b. b \<noteq> []) (bucket_contents delta n cs (Suc (nat n)))"
proof (cases "L = Suc (nat n)")
  case False
  with assms(1,2) have L: "L = nat n" by simp
  have "filter (\<lambda>c. bucket_of delta n c = nat n) cs = []"
    using assms(3) L by (auto simp: filter_empty_conv)
  with L show ?thesis by simp
qed simp

lemma bucket_of_mono:
  "0 < delta \<Longrightarrow> tr_start c1 \<le> tr_start c2 \<Longrightarrow> bucket_of delta n c1 \<le> bucket_of delta n c2"
  unfolding bucket_of_def
  by (intro nat_mono min.mono floor_mono divide_right_mono) simp_all

lemma sorted_bucket_of:
  "0 < delta \<Longrightarrow> sorted (map tr_start cs) \<Longrightarrow> sorted (map (bucket_of delta n) cs)"
  by (induction cs) (auto intro: bucket_of_mono)

lemma total_time_width_pos:
  fixes T :: real
  assumes "0 < n" "of_int n \<le> T"
  shows "0 < (of_int \<lfloor>T / of_int n\<rfloor> :: real)"
proof -
  have "1 \<le> T / of_int n" using assms by (simp add: le_divide_eq)
  then show ?thesis by simp
qed

lemmas bucket_eval = divide_chunks_by_time_def bucket_index_def bucket_append_def py_eval Let_def

lemma divide_chunks_by_time_mset:
  assumes "divide_chunks_by_time cs split_num = Inr bs"
  shows "mset (concat bs) = mset cs"
proof -
  obtain delta sc where "bucket_loop delta split_num (replicate (nat split_num) []) cs = Inr sc"
    and "bs = filter (\<lambda>sc. 0 < length sc) sc"
    using assms by (auto simp: divide_chunks_by_time_def Let_def split: if_splits sum.splits)
  then show ?thesis by (auto dest: bucket_loop_mset)
qed

lemma divide_chunks_by_time_length:
  assumes "divide_chunks_by_time cs split_num = Inr bs"
  shows "length bs \<le> nat split_num + 1 \<and> (\<forall>b \<in> set bs. b \<noteq> [])"
proof -
  obtain delta sc where loop: "bucket_loop delta split_num (replicate (nat split_num) []) cs = Inr sc"
    and bs: "bs = filter (\<lambda>sc. 0 < length sc) sc"
    using assms by (auto simp: divide_chunks_by_time_def Let_def split: if_splits sum.splits)
  have "length sc \<le> nat split_num + 1"
    using bucket_loop_length [OF loop] by simp
  then have "length bs \<le> nat split_num + 1"
    using bs length_filter_le order_trans by blast
  then show ?thesis using bs by auto
qed

lemma divide_chunks_by_time_nonempty:
  "divide_chunks_by_time cs split_num = Inr bs \<Longrightarrow> bs \<noteq> []"
  using divide_chunks_by_time_mset [of cs split_num bs]
  by (auto simp: divide_chunks_by_time_def split: if_splits)

subsection \<open>The method against its specification\<close>

lemma divide_chunks_by_time_eq_spec:
  assumes "cs \<noteq> []" "0 < split_num" "\<forall>c \<in> set cs. 0 \<le> tr_start c"
    and "of_int split_num \<le> tr_start (last cs) + tr_duration (last cs)"
  shows "divide_chunks_by_time cs split_num =
         Inr (bucket_spec (of_int \<lfloor>(tr_start (last cs) + tr_duration (last cs)) / of_int split_num\<rfloor>)
                          split_num cs)"
proof -
  let ?T = "tr_start (last cs) + tr_duration (last cs)"
  let ?d = "of_int \<lfloor>?T / of_int split_num\<rfloor> :: real"
  have d: "0 < ?d" using total_time_width_pos [OF assms(2,4)] .
  have fl: "py_floordiv ?T (of_int split_num) = Inr ?d"
    using assms(2) by (simp add: py_floordiv_def)
  have init: "replicate (nat split_num) [] = bucket_contents ?d split_num [] (nat split_num)"
    by (simp add: map_replicate_const)
  obtain L' where L': "nat split_num \<le> L'" "L' \<le> Suc (nat split_num)"
      "\<forall>c \<in> set cs. bucket_of ?d split_num c < L'"
    and loop: "bucket_loop ?d split_num (replicate (nat split_num) []) cs =
               Inr (bucket_contents ?d split_num cs L')"
    using bucket_loop_contents [OF d, of split_num cs "nat split_num" "[]"] assms(2,3) init
    by auto
  have "filter (\<lambda>b. b \<noteq> []) (bucket_contents ?d split_num cs L') = bucket_spec ?d split_num cs"
    using bucket_contents_filter_Suc [OF L'] by (simp add: bucket_spec_def)
  with assms(1) fl loop show ?thesis
    by (simp add: divide_chunks_by_time_def Let_def)
qed

lemma example_timeline_buckets:
  "divide_chunks_by_time example_timeline 5 = Inr example_buckets"
  by (simp add: example_timeline_def example_buckets_def example_chunk_def bucket_eval)

lemma example_timeline_hyps:
  "example_timeline \<noteq> []" "\<forall>c \<in> set example_timeline. 0 \<le> tr_start c"
  "sorted (map tr_start example_timeline)"
  "tr_start (last example_timeline) + tr_duration (last example_timeline) = 92"
  by (simp_all add: example_timeline_def example_chunk_def)

subsection \<open>Properties of the bucketer\<close>

text \<open>C4 (refinement): for a non-empty chunk list with non-negative start times whose total
  time is at least \<open>split_num > 0\<close> seconds, the method returns exactly the abstract
  bucketing: the chunks grouped by \<open>min \<lfloor>start / delta\<rfloor> split_num\<close>, where
  \<open>delta = \<lfloor>total / split_num\<rfloor>\<close>, in index order, empty buckets dropped.\<close>

theorem divide_chunks_by_time_refines:
  assumes "cs \<noteq> []" "0 < split_num" "\<forall>c \<in> set cs. 0 \<le> tr_start c"
    and "of_int split_num \<le> tr_start (last cs) + tr_duration (last cs)"
  shows "divide_chunks_by_time cs split_num =
         Inr (bucket_spec (of_int \<lfloor>(tr_start (last cs) + tr_duration (last cs)) / of_int split_num\<rfloor>)
                          split_num cs)"
  using assms by (rule divide_chunks_by_time_eq_spec)

text \<open>C5: whenever the bucketing succeeds it neither loses nor duplicates a chunk: the
  buckets together hold exactly the input chunks (as a multiset).\<close>

theorem divide_chunks_by_time_no_loss:
  assumes "divide_chunks_by_time cs split_num = Inr bs"
  shows "mset (concat bs) = mset cs"
  using assms by (rule divide_chunks_by_time_mset)

text \<open>C6: under the hypotheses of C4, if the chunks are in start-time order then reading the
  buckets in order gives back the chunk list itself (buckets are contiguous, ordered runs).\<close>

theorem divide_chunks_by_time_ordered:
  assumes "cs \<noteq> []" "0 < split_num" "\<forall>c \<in> set cs. 0 \<le> tr_start c"
    and "of_int split_num \<le> tr_start (last cs) + tr_duration (last cs)"
    and "sorted (map tr_start cs)"
  shows "\<exists>bs. divide_chunks_by_time cs split_num = Inr bs \<and> concat bs = cs"
proof -
  let ?d = "of_int \<lfloor>(tr_start (last cs) + tr_duration (last cs)) / of_int split_num\<rfloor> :: real"
  have d: "0 < ?d" using total_time_width_pos [OF assms(2,4)] .
  have below: "\<forall>c \<in> set cs. bucket_of ?d split_num c < Suc (nat split_num)"
    by (simp add: bucket_of_def less_Suc_eq_le nat_mono)
  have "concat (bucket_spec ?d split_num cs) = concat (bucket_contents ?d split_num cs (Suc (nat split_num)))"
    unfolding bucket_spec_def by (rule concat_filter_nonempty)
  also have "\<dots> = filter (\<lambda>c. bucket_of ?d split_num c < Suc (nat split_num)) cs"
    by (rule concat_filter_upt_sorted [OF sorted_bucket_of [OF d assms(5)]])
  also have "\<dots> = cs" using below by simp
  finally show ?thesis using divide_chunks_by_time_eq_spec [OF assms(1-4)] by blast
qed

text \<open>C7: the method returns at most \<open>split_num + 1\<close> buckets (the clamp admits one bucket
  past the nominal last one), and none of them is empty.\<close>

theorem divide_chunks_by_time_bounds:
  assumes "divide_chunks_by_time cs split_num = Inr bs"
  shows "length bs \<le> nat split_num + 1 \<and> (\<forall>b \<in> set bs. b \<noteq> [])"
  using assms by (rule divide_chunks_by_time_length)

text \<open>C8: with a positive width, a chunk that starts later never gets a smaller bucket index.\<close>

theorem bucket_index_monotone:
  assumes "0 < delta" "s1 \<le> s2"
    and "bucket_index delta split_num s1 = Inr i1" "bucket_index delta split_num s2 = Inr i2"
  shows "i1 \<le> i2"
proof -
  have "\<lfloor>s1 / delta\<rfloor> \<le> \<lfloor>s2 / delta\<rfloor>"
    using assms(1,2) by (intro floor_mono divide_right_mono) simp_all
  then show ?thesis
    using assms by (auto simp: bucket_index_eq min_def)
qed

lemma divide_chunks_by_time_short:
  assumes cs: "cs \<noteq> []" and n: "0 < split_num"
    and T: "0 \<le> tr_start (last cs) + tr_duration (last cs)"
           "tr_start (last cs) + tr_duration (last cs) < of_int split_num"
  shows "divide_chunks_by_time cs split_num = Inl ZeroDivisionError"
proof -
  let ?T = "tr_start (last cs) + tr_duration (last cs)"
  have "\<lfloor>?T / of_int split_num\<rfloor> = 0"
    using n T by (simp add: floor_eq_iff divide_less_eq)
  then have fl: "py_floordiv ?T (of_int split_num) = Inr 0"
    using n by (simp add: py_floordiv_def)
  obtain c cs' where "cs = c # cs'" using cs by (cases cs) auto
  then show ?thesis
    using fl by (simp add: divide_chunks_by_time_def bucket_index_zero Let_def)
qed

text \<open>C9 (errors): an empty chunk list raises IndexError (\<open>self.chunks[-1]\<close>), and a
  transcript shorter than \<open>split_num\<close> seconds raises ZeroDivisionError, because the
  bucket width \<open>total_time // split_num\<close> is then 0.\<close>

theorem divide_chunks_by_time_errors:
  "divide_chunks_by_time [] split_num = Inl IndexError \<and>
   (cs \<noteq> [] \<longrightarrow> 0 < split_num \<longrightarrow> 0 \<le> tr_start (last cs) + tr_duration (last cs) \<longrightarrow>
    tr_start (last cs) + tr_duration (last cs) < of_int split_num \<longrightarrow>
    divide_chunks_by_time cs split_num = Inl ZeroDivisionError)"
proof (intro conjI impI)
  show "divide_chunks_by_time [] split_num = Inl IndexError"
    by (simp add: divide_chunks_by_time_def)
qed (rule divide_chunks_by_time_short)

subsection \<open>Witnesses\<close>

theorem divide_chunks_by_time_refines_witness:
  "divide_chunks_by_time example_timeline 5 = Inr (bucket_spec 18 5 example_timeline)"
proof -
  have h: "real_of_int 5 \<le> tr_start (last example_timeline) + tr_duration (last example_timeline)"
    using example_timeline_hyps(4) by simp
  have "divide_chunks_by_time example_timeline 5 =
        Inr (bucket_spec (of_int \<lfloor>(tr_start (last example_timeline) + tr_duration (last example_timeline))
                                   / of_int 5\<rfloor>) 5 example_timeline)"
    by (rule divide_chunks_by_time_refines [OF example_timeline_hyps(1) _ example_timeline_hyps(2) h]) simp
  then show ?thesis using example_timeline_hyps(4) by simp
qed

theorem divide_chunks_by_time_no_loss_witness:
  "mset (concat example_buckets) = mset example_timeline"
  by (rule divide_chunks_by_time_no_loss [OF example_timeline_buckets])

theorem divide_chunks_by_time_ordered_witness:
  "\<exists>bs. divide_chunks_by_time example_timeline 5 = Inr bs \<and> concat bs = example_timeline"
proof -
  have h: "real_of_int 5 \<le> tr_start (last example_timeline) + tr_duration (last example_timeline)"
    using example_timeline_hyps(4) by simp
  show ?thesis
    by (rule divide_chunks_by_time_ordered [OF example_timeline_hyps(1) _ example_timeline_hyps(2) h
          example_timeline_hyps(3)]) simp
qed

theorem divide_chunks_by_time_bounds_witness:
  "length example_buckets \<le> 6 \<and> [] \<notin> set example_buckets"
  using divide_chunks_by_time_bounds [OF example_timeline_buckets] by auto

theorem bucket_index_monotone_witness:
  "bucket_index 18 5 10 = Inr 0 \<and> bucket_index 18 5 90 = Inr 5 \<and> (0::int) \<le> 5"
proof -
  have a: "bucket_index 18 5 10 = Inr 0" and b: "bucket_index 18 5 90 = Inr 5"
    by (simp_all add: bucket_index_eq)
  have "(0::int) \<le> 5" using bucket_index_monotone [OF _ _ a b] by simp
  with a b show ?thesis by simp
qed

theorem divide_chunks_by_time_errors_witness:
  "divide_chunks_by_time [example_chunk 1] 5 = Inl ZeroDivisionError"
proof -
  have "[example_chunk 1] \<noteq> [] \<and> (0::int) < 5 \<and>
        0 \<le> tr_start (last [example_chunk 1]) + tr_duration (last [example_chunk 1]) \<and>
        tr_start (last [example_chunk 1]) + tr_duration (last [example_chunk 1]) < of_int 5"
    by (simp add: example_chunk_def)
  then show ?thesis
    using divide_chunks_by_time_errors [of 5 "[example_chunk 1]"] by blast
qed

end
