(* ===== verification/Json.thy ===== *)
theory Json
  imports YTS_Prelude
begin

text \<open>
  The JSON layer of SummaryStore: Python's \<open>json.dumps(obj, ensure_ascii=False)\<close>, used by
  \<open>YoutubeSummarize.run\<close> to write the summary file, and \<open>json.load\<close>, used by the QA
  command to read it back. Both are library code (not under \<open>src/\<close>), modelled from
  Python's documented behaviour: \<open>dumps\<close> writes \<open>", "\<close> between items and \<open>": "\<close> after
  keys, escapes the quote, the backslash and the control characters below 0x20
  (\<open>\b \f \n \r \t\<close> by name, the rest as \<open>\u00xx\<close> in lower-case hex) and writes every
  other byte as it is; \<open>loads\<close> is the strict decoder (raw control characters inside a
  string are an error, whitespace is space, tab, LF and CR, trailing data is an error).
  Numbers are not modelled: the program never writes them. A \<open>\uXXXX\<close> escape decodes to
  the UTF-8 bytes of its code point; surrogate escapes are outside the model (rejected).
  The value parser recurses on a fuel argument, one unit per nesting level or list
  element; \<open>json_loads\<close> gives it the length of the input, which is enough
  (\<open>json_roundtrip\<close>).
\<close>

datatype json =
    JNull
  | JBool bool
  | JString string
  | JArray "json list"
  | JObject "(string \<times> json) list"

abbreviation quote_char :: char where "quote_char \<equiv> CHR 0x22"
abbreviation backslash_char :: char where "backslash_char \<equiv> CHR 0x5C"

subsection \<open>Encoding\<close>

definition hex_digit :: "nat \<Rightarrow> char" where
  "hex_digit d = (if d < 10 then char_of (48 + d) else char_of (87 + d))"

definition json_escape_char :: "char \<Rightarrow> string" where
  "json_escape_char c =
     (if c = backslash_char then [backslash_char, backslash_char]
      else if c = quote_char then [backslash_char, quote_char]
      else if c = CHR 0x0A then [backslash_char, CHR ''n'']
      else if c = CHR 0x0D then [backslash_char, CHR ''r'']
      else if c = CHR 0x09 then [backslash_char, CHR ''t'']
      else if c = CHR 0x08 then [backslash_char, CHR ''b'']
      else if c = CHR 0x0C then [backslash_char, CHR ''f'']
      else if of_char c < (32::nat)
      then [backslash_char, CHR ''u'', CHR ''0'', CHR ''0'',
            hex_digit (of_char c div 16), hex_digit (of_char c mod 16)]
      else [c])"

definition json_encode_string :: "string \<Rightarrow> string" where
  "json_encode_string s = [quote_char] @ concat (map json_escape_char s) @ [quote_char]"

fun json_dumps :: "json \<Rightarrow> string" where
  "json_dumps JNull = ''null''"
| "json_dumps (JBool b) = (if b then ''true'' else ''false'')"
| "json_dumps (JString s) = json_encode_string s"
| "json_dumps (JArray vs) = ''['' @ py_join '', '' (map json_dumps vs) @ '']''"
| "json_dumps (JObject kvs) =
     ''{'' @ py_join '', '' (map (\<lambda>(k, v). json_encode_string k @ '': '' @ json_dumps v) kvs) @ ''}''"

subsection \<open>Decoding\<close>

definition json_ws :: "char \<Rightarrow> bool" where
  "json_ws c \<longleftrightarrow> c = CHR 0x20 \<or> c = CHR 0x09 \<or> c = CHR 0x0A \<or> c = CHR 0x0D"

definition skip_ws :: "string \<Rightarrow> string" where
  "skip_ws s = dropWhile json_ws s"

definition hex_val :: "char \<Rightarrow> nat option" where
  "hex_val c =
     (let n = of_char c :: nat
      in if 48 \<le> n \<and> n \<le> 57 then Some (n - 48)
         else if 97 \<le> n \<and> n \<le> 102 then Some (n - 87)
         else if 65 \<le> n \<and> n \<le> 70 then Some (n - 55)
         else None)"

fun hex4 :: "string \<Rightarrow> nat option" where
  "hex4 [a, b, c, d] =
     (case (hex_val a, hex_val b, hex_val c, hex_val d) of
        (Some w, Some x, Some y, Some z) \<Rightarrow> Some (((w * 16 + x) * 16 + y) * 16 + z)
      | _ \<Rightarrow> None)"
| "hex4 _ = None"

text \<open>The UTF-8 bytes of a code point below 0x10000; surrogates are rejected.\<close>

definition utf8_of :: "nat \<Rightarrow> string option" where
  "utf8_of n =
     (if n < 0x80 then Some [char_of n]
      else if n < 0x800 then Some [char_of (0xC0 + n div 64), char_of (0x80 + n mod 64)]
      else if 0xD800 \<le> n \<and> n < 0xE000 then None
      else Some [char_of (0xE0 + n div 4096), char_of (0x80 + (n div 64) mod 64),
                 char_of (0x80 + n mod 64)])"

definition simple_escape :: "char \<Rightarrow> char option" where
  "simple_escape e =
     (if e = quote_char \<or> e = backslash_char \<or> e = CHR ''/'' then Some e
      else if e = CHR ''b'' then Some (CHR 0x08)
      else if e = CHR ''f'' then Some (CHR 0x0C)
      else if e = CHR ''n'' then Some (CHR 0x0A)
      else if e = CHR ''r'' then Some (CHR 0x0D)
      else if e = CHR ''t'' then Some (CHR 0x09)
      else None)"

definition prepend :: "string \<Rightarrow> (string \<times> string) option \<Rightarrow> (string \<times> string) option" where
  "prepend bs r = map_option (\<lambda>(s, rest). (bs @ s, rest)) r"

text \<open>The body of a string literal after its opening quote: the decoded bytes and the
  input after the closing quote.\<close>

function parse_string_body :: "string \<Rightarrow> (string \<times> string) option" where
  "parse_string_body [] = None"
| "parse_string_body (c # cs) =
     (if c = quote_char then Some ([], cs)
      else if c = backslash_char then
        (case cs of
           [] \<Rightarrow> None
         | e # cs' \<Rightarrow>
             (if e = CHR ''u'' then
                (case hex4 (take 4 cs') of
                   None \<Rightarrow> None
                 | Some n \<Rightarrow>
                     (case utf8_of n of
                        None \<Rightarrow> None
                      | Some bs \<Rightarrow> prepend bs (parse_string_body (drop 4 cs'))))
              else
                (case simple_escape e of
                   None \<Rightarrow> None
                 | Some b \<Rightarrow> prepend [b] (parse_string_body cs'))))
      else if of_char c < (32::nat) then None
      else prepend [c] (parse_string_body cs))"
  by pat_completeness auto
termination
  by (relation "measure length") auto

fun parse_value :: "nat \<Rightarrow> string \<Rightarrow> (json \<times> string) option"
and parse_elements :: "nat \<Rightarrow> string \<Rightarrow> (json list \<times> string) option"
and parse_members :: "nat \<Rightarrow> string \<Rightarrow> ((string \<times> json) list \<times> string) option" where
  "parse_value 0 s = None"
| "parse_value (Suc n) s =
     (case skip_ws s of
        [] \<Rightarrow> None
      | c # cs \<Rightarrow>
          (if c = quote_char then map_option (\<lambda>(str, r). (JString str, r)) (parse_string_body cs)
           else if c = CHR ''['' then
             (case skip_ws cs of
                d # ds \<Rightarrow> (if d = CHR '']'' then Some (JArray [], ds)
                           else map_option (\<lambda>(vs, r). (JArray vs, r)) (parse_elements n cs))
              | [] \<Rightarrow> None)
           else if c = CHR ''{'' then
             (case skip_ws cs of
                d # ds \<Rightarrow> (if d = CHR ''}'' then Some (JObject [], ds)
                           else map_option (\<lambda>(kvs, r). (JObject kvs, r)) (parse_members n cs))
              | [] \<Rightarrow> None)
           else if take 4 (c # cs) = ''null'' then Some (JNull, drop 4 (c # cs))
           else if take 4 (c # cs) = ''true'' then Some (JBool True, drop 4 (c # cs))
           else if take 5 (c # cs) = ''false'' then Some (JBool False, drop 5 (c # cs))
           else None))"
| "parse_elements 0 s = None"
| "parse_elements (Suc n) s =
     (case parse_value n s of
        None \<Rightarrow> None
      | Some (v, r) \<Rightarrow>
          (case skip_ws r of
             [] \<Rightarrow> None
           | c # cs \<Rightarrow>
               (if c = CHR '','' then map_option (\<lambda>(vs, r'). (v # vs, r')) (parse_elements n cs)
                else if c = CHR '']'' then Some ([v], cs)
                else None)))"
| "parse_members 0 s = None"
| "parse_members (Suc n) s =
     (case skip_ws s of
        [] \<Rightarrow> None
      | c # cs \<Rightarrow>
          (if c \<noteq> quote_char then None
           else
             (case parse_string_body cs of
                None \<Rightarrow> None
              | Some (k, r) \<Rightarrow>
                  (case skip_ws r of
                     [] \<Rightarrow> None
                   | d # ds \<Rightarrow>
                       (if d \<noteq> CHR '':'' then None
                        else
                          (case parse_value n ds of
                             None \<Rightarrow> None
                           | Some (v, r2) \<Rightarrow>
                               (case skip_ws r2 of
                                  [] \<Rightarrow> None
                                | e # es \<Rightarrow>
                                    (if e = CHR '','' then
                                       map_option (\<lambda>(kvs, r3). ((k, v) # kvs, r3)) (parse_members n es)
                                     else if e = CHR ''}'' then Some ([(k, v)], es)
                                     else None))))))))"

definition json_loads :: "string \<Rightarrow> json result" where
  "json_loads s =
     (case parse_value (length s) s of
        None \<Rightarrow> Inl JSONDecodeError
      | Some (v, rest) \<Rightarrow> (if skip_ws rest = [] then Inr v else Inl JSONDecodeError))"

subsection \<open>Lemmas: whitespace\<close>

lemma skip_ws_Cons [simp]:
  "skip_ws (c # s) = (if json_ws c then skip_ws s else c # s)"
  by (simp add: skip_ws_def)

lemma skip_ws_Nil [simp]: "skip_ws [] = []"
  by (simp add: skip_ws_def)

lemma json_ws_chars [simp]:
  "json_ws CHR '' ''" "\<not> json_ws CHR '',''" "\<not> json_ws CHR '']''" "\<not> json_ws CHR ''}''"
  "\<not> json_ws CHR '':''" "\<not> json_ws quote_char" "\<not> json_ws CHR ''[''" "\<not> json_ws CHR ''{''"
  "\<not> json_ws CHR ''n''" "\<not> json_ws CHR ''t''" "\<not> json_ws CHR ''f''"
  by (simp_all add: json_ws_def)

lemma parse_value_ws: "json_ws c \<Longrightarrow> parse_value n (c # s) = parse_value n s"
  by (cases n) simp_all

lemma parse_elements_ws: "json_ws c \<Longrightarrow> parse_elements n (c # s) = parse_elements n s"
  by (cases n) (simp_all add: parse_value_ws)

lemma parse_members_ws: "json_ws c \<Longrightarrow> parse_members n (c # s) = parse_members n s"
  by (cases n) simp_all

subsection \<open>Lemmas: string literals\<close>

lemma hex_val_hex_digit: "d < 16 \<Longrightarrow> hex_val (hex_digit d) = Some d"
  by (auto simp: hex_val_def hex_digit_def Let_def)

lemma parse_string_body_escape:
  "parse_string_body (json_escape_char c @ t) = prepend [c] (parse_string_body t)"
proof -
  consider (bs) "c = backslash_char" | (qt) "c = quote_char" | (nl) "c = CHR 0x0A" | (cr) "c = CHR 0x0D"
    | (tb) "c = CHR 0x09" | (bk) "c = CHR 0x08" | (ff) "c = CHR 0x0C"
    | (ctl) "of_char c < (32::nat)" "c \<notin> {backslash_char, quote_char, CHR 0x0A, CHR 0x0D, CHR 0x09, CHR 0x08, CHR 0x0C}"
    | (plain) "\<not> of_char c < (32::nat)"
        "c \<notin> {backslash_char, quote_char, CHR 0x0A, CHR 0x0D, CHR 0x09, CHR 0x08, CHR 0x0C}"
    by (cases "of_char c < (32::nat)") auto
  then show ?thesis
  proof cases
    case ctl
    let ?d = "of_char c :: nat"
    have "?d div 16 < 16" "?d mod 16 < 16" using ctl(1) by simp_all
    then have "hex4 [CHR ''0'', CHR ''0'', hex_digit (?d div 16), hex_digit (?d mod 16)] = Some ?d"
      by (simp add: hex_val_hex_digit) (simp add: hex_val_def)
    moreover have "utf8_of ?d = Some [c]" using ctl(1) by (simp add: utf8_of_def)
    ultimately show ?thesis using ctl by (simp add: json_escape_char_def)
  next
    case plain
    then show ?thesis by (simp add: json_escape_char_def)
  qed (simp_all add: json_escape_char_def simple_escape_def)
qed

lemma parse_string_body_encode:
  "parse_string_body (concat (map json_escape_char s) @ quote_char # r) = Some (s, r)"
  by (induction s) (simp_all add: parse_string_body_escape prepend_def)

subsection \<open>Lemmas: values\<close>

lemma json_dumps_Cons:
  "\<exists>c t. json_dumps v = c # t \<and> \<not> json_ws c \<and> c \<noteq> CHR '']'' \<and> c \<noteq> CHR ''}''"
  by (cases v) (auto simp: json_encode_string_def)

lemma py_join_Cons_app: "\<exists>t. py_join sep (x # xs) = x @ t"
  by (cases xs) auto

lemma parse_elements_dumps:
  assumes "\<And>x n r. x \<in> set (w # ws) \<Longrightarrow> length (json_dumps x) \<le> n \<Longrightarrow>
             parse_value n (json_dumps x @ r) = Some (x, r)"
    and "length (py_join '', '' (map json_dumps (w # ws))) < n"
  shows "parse_elements n (py_join '', '' (map json_dumps (w # ws)) @ '']'' @ r) = Some (w # ws, r)"
  using assms
proof (induction ws arbitrary: w n)
  case Nil
  then obtain m where n: "n = Suc m" and m: "length (json_dumps w) \<le> m"
    by (cases n) auto
  have "parse_value m (json_dumps w @ '']'' @ r) = Some (w, '']'' @ r)"
    using Nil.prems(1) [of w m] m by simp
  then show ?case using n by simp
next
  case (Cons w' ws)
  let ?rest = "py_join '', '' (map json_dumps (w' # ws)) @ '']'' @ r"
  obtain m where n: "n = Suc m" using Cons.prems(2) by (cases n) auto
  have pv: "parse_value m (json_dumps w @ CHR '','' # CHR '' '' # ?rest) = Some (w, CHR '','' # CHR '' '' # ?rest)"
    using Cons.prems n by simp
  have "parse_elements m ?rest = Some (w' # ws, r)"
    using Cons.IH [of w' m] Cons.prems n by simp
  then have pe: "parse_elements m (CHR '' '' # ?rest) = Some (w' # ws, r)"
    by (simp add: parse_elements_ws)
  show ?case using n pv pe by simp
qed

lemma parse_members_dumps:
  assumes "\<And>k x n r. (k, x) \<in> set (kv # kvs) \<Longrightarrow> length (json_dumps x) \<le> n \<Longrightarrow>
             parse_value n (json_dumps x @ r) = Some (x, r)"
    and "length (py_join '', '' (map (\<lambda>(k, v). json_encode_string k @ '': '' @ json_dumps v) (kv # kvs))) < n"
  shows "parse_members n (py_join '', '' (map (\<lambda>(k, v). json_encode_string k @ '': '' @ json_dumps v) (kv # kvs))
                          @ ''}'' @ r) = Some (kv # kvs, r)"
  using assms
proof (induction kvs arbitrary: kv n)
  case Nil
  obtain k x where kv: "kv = (k, x)" by (cases kv)
  obtain m where n: "n = Suc m" and m: "length (json_dumps x) \<le> m"
    using Nil.prems(2) kv by (cases n) (auto simp: json_encode_string_def)
  have "parse_value m (json_dumps x @ ''}'' @ r) = Some (x, ''}'' @ r)"
    using Nil.prems(1) [of k x m] kv m by simp
  then have "parse_value m (CHR '' '' # json_dumps x @ ''}'' @ r) = Some (x, ''}'' @ r)"
    by (simp add: parse_value_ws)
  then show ?case
    using n kv by (simp add: json_encode_string_def parse_string_body_encode)
next
  case (Cons kv' kvs)
  let ?mem = "\<lambda>(k, v). json_encode_string k @ '': '' @ json_dumps v"
  let ?rest = "py_join '', '' (map ?mem (kv' # kvs)) @ ''}'' @ r"
  obtain k x where kv: "kv = (k, x)" by (cases kv)
  obtain m where n: "n = Suc m" and m: "length (json_dumps x) \<le> m"
    using Cons.prems(2) kv by (cases n) (auto simp: json_encode_string_def)
  have "parse_value m (json_dumps x @ CHR '','' # CHR '' '' # ?rest) = Some (x, CHR '','' # CHR '' '' # ?rest)"
    using Cons.prems(1) [of k x m] kv m by simp
  then have pv: "parse_value m (CHR '' '' # json_dumps x @ CHR '','' # CHR '' '' # ?rest) =
                 Some (x, CHR '','' # CHR '' '' # ?rest)"
    by (simp add: parse_value_ws)
  have IH1: "\<And>k x n r. (k, x) \<in> set (kv' # kvs) \<Longrightarrow> length (json_dumps x) \<le> n \<Longrightarrow>
               parse_value n (json_dumps x @ r) = Some (x, r)"
  proof -
    fix k x n r
    assume "(k, x) \<in> set (kv' # kvs)" "length (json_dumps x) \<le> n"
    then show "parse_value n (json_dumps x @ r) = Some (x, r)"
      using Cons.prems(1) [of k x n r] by simp
  qed
  have len: "length (py_join '', '' (map ?mem (kv' # kvs))) < m"
    using Cons.prems(2) n kv by (simp add: json_encode_string_def)
  have "parse_members m ?rest = Some (kv' # kvs, r)"
    using Cons.IH [where kv = kv' and n = m, OF IH1 len] by simp
  then have pm: "parse_members m (CHR '' '' # ?rest) = Some (kv' # kvs, r)"
    by (simp add: parse_members_ws)
  show ?case using n kv pv pm by (simp add: json_encode_string_def parse_string_body_encode)
qed

lemma parse_value_dumps:
  "length (json_dumps v) \<le> n \<Longrightarrow> parse_value n (json_dumps v @ r) = Some (v, r)"
proof (induction v arbitrary: n r)
  case JNull
  then show ?case by (cases n) simp_all
next
  case (JBool b)
  then show ?case by (cases n; cases b) simp_all
next
  case (JString s)
  then show ?case
    by (cases n) (simp_all add: json_encode_string_def parse_string_body_encode)
next
  case (JArray vs)
  obtain m where n: "n = Suc m" using JArray.prems by (cases n) auto
  show ?case
  proof (cases vs)
    case Nil
    then show ?thesis using n by simp
  next
    case (Cons w ws)
    obtain c t where c: "json_dumps w = c # t" "\<not> json_ws c" "c \<noteq> CHR '']''"
      using json_dumps_Cons [of w] by blast
    obtain u where u: "py_join '', '' (map json_dumps (w # ws)) = json_dumps w @ u"
      using py_join_Cons_app by (metis list.simps(9))
    have "parse_elements m (py_join '', '' (map json_dumps (w # ws)) @ '']'' @ r) = Some (w # ws, r)"
      using parse_elements_dumps [of w ws m r] JArray.IH JArray.prems n Cons by simp
    then show ?thesis using n Cons c u by simp
  qed
next
  case (JObject kvs)
  obtain m where n: "n = Suc m" using JObject.prems by (cases n) auto
  show ?case
  proof (cases kvs)
    case Nil
    then show ?thesis using n by simp
  next
    case (Cons kv kvs')
    have IH: "\<And>k x n r. (k, x) \<in> set (kv # kvs') \<Longrightarrow> length (json_dumps x) \<le> n \<Longrightarrow>
                parse_value n (json_dumps x @ r) = Some (x, r)"
      using JObject.IH Cons by fastforce
    obtain k x where kv: "kv = (k, x)" by (cases kv)
    have "parse_members m (py_join '', '' (map (\<lambda>(k, v). json_encode_string k @ '': '' @ json_dumps v) (kv # kvs'))
                          @ ''}'' @ r) = Some (kv # kvs', r)"
      using parse_members_dumps [OF IH] JObject.prems n Cons by simp
    moreover obtain u where
      "py_join '', '' (map (\<lambda>(k, v). json_encode_string k @ '': '' @ json_dumps v) (kv # kvs')) =
       (json_encode_string k @ '': '' @ json_dumps x) @ u"
      using py_join_Cons_app kv by (metis (no_types, lifting) case_prod_conv list.simps(9))
    ultimately show ?thesis using n Cons kv by (simp add: json_encode_string_def)
  qed
qed

text \<open>The decoder reads back everything the encoder writes.\<close>

lemma json_roundtrip: "json_loads (json_dumps v) = Inr v"
  using parse_value_dumps [of v "length (json_dumps v)" "[]"] by (simp add: json_loads_def)

end
