(* ===== verification/Store.thy ===== *)
theory Store
  imports Json
begin

text \<open>
  SummaryStore: the summary file of one video. The file system is a record of the files
  (path to contents) and the directories; \<open>os.path.isdir\<close>, \<open>os.path.exists\<close>,
  \<open>os.makedirs\<close>, \<open>open(p, "w").write\<close> and \<open>open(p).read\<close> are modelled with the
  exceptions they raise (FileExistsError, IsADirectoryError, FileNotFoundError);
  \<open>os.makedirs\<close> records only the directory it is asked for, not its ancestors, and
  \<open>os.path.dirname\<close> follows \<open>posixpath.dirname\<close>. The summary dictionary of
  \<open>YoutubeSummarize.run\<close> (summarize.py lines 102--107) is the record
  \<open>SummaryRecord\<close> and its JSON object \<open>summary_json\<close>; saving it is lines 109--112;
  reading its \<open>concise\<close> entry back is the QA command's hint, \<open>__main__.py\<close> lines 20--22.
  Effects return the file system also on failure, as the real one keeps what was done.
\<close>

record fsys =
  fs_files :: "string \<rightharpoonup> string"
  fs_dirs :: "string set"

definition py_dirname :: "string \<Rightarrow> string" where
  "py_dirname p =
     (let i = length p - length (takeWhile (\<lambda>c. c \<noteq> CHR ''/'') (rev p));
          head = take i p
      in if head \<noteq> [] \<and> head \<noteq> replicate (length head) (CHR ''/'')
         then rev (dropWhile (\<lambda>c. c = CHR ''/'') (rev head)) else head)"

definition py_isdir :: "fsys \<Rightarrow> string \<Rightarrow> bool" where
  "py_isdir fs d \<longleftrightarrow> d \<in> fs_dirs fs"

definition py_exists :: "fsys \<Rightarrow> string \<Rightarrow> bool" where
  "py_exists fs p \<longleftrightarrow> p \<in> dom (fs_files fs) \<or> p \<in> fs_dirs fs"

definition py_makedirs :: "string \<Rightarrow> fsys \<Rightarrow> unit result \<times> fsys" where
  "py_makedirs d fs =
     (if d = [] then (Inl FileNotFoundError, fs)
      else if py_exists fs d then (Inl FileExistsError, fs)
      else (Inr (), fs\<lparr>fs_dirs := insert d (fs_dirs fs)\<rparr>))"

definition py_write_file :: "string \<Rightarrow> string \<Rightarrow> fsys \<Rightarrow> unit result \<times> fsys" where
  "py_write_file p text fs =
     (if p \<in> fs_dirs fs then (Inl IsADirectoryError, fs)
      else if py_dirname p \<noteq> [] \<and> \<not> py_isdir fs (py_dirname p) then (Inl FileNotFoundError, fs)
      else (Inr (), fs\<lparr>fs_files := (fs_files fs)(p \<mapsto> text)\<rparr>))"

definition py_read_file :: "fsys \<Rightarrow> string \<Rightarrow> string result" where
  "py_read_file fs p =
     (case fs_files fs p of
        Some text \<Rightarrow> Inr text
      | None \<Rightarrow> (if p \<in> fs_dirs fs then Inl IsADirectoryError else Inl FileNotFoundError))"

text \<open>The summary dictionary, summarize.py lines 102--107.\<close>

record SummaryRecord =
  sum_url :: string
  sum_title :: string
  sum_detail :: "string list"
  sum_concise :: string

definition summary_json :: "SummaryRecord \<Rightarrow> json" where
  "summary_json r =
     JObject [(''url'', JString (sum_url r)), (''title'', JString (sum_title r)),
              (''detail'', JArray (map JString (sum_detail r))), (''concise'', JString (sum_concise r))]"

text \<open>Lines 109--112: create the directory if it is missing, then write the JSON text.\<close>

definition save_summary :: "string \<Rightarrow> SummaryRecord \<Rightarrow> fsys \<Rightarrow> unit result \<times> fsys" where
  "save_summary summary_file summary fs =
     (let d = py_dirname summary_file;
          (r, fs1) = (if \<not> py_isdir fs d then py_makedirs d fs else (Inr (), fs))
      in case r of
           Inl e \<Rightarrow> (Inl e, fs1)
         | Inr _ \<Rightarrow> py_write_file summary_file (json_dumps (summary_json summary)) fs1)"

text \<open>\<open>summary["concise"]\<close> on a decoded JSON value: a dictionary lookup (the last of
  duplicate keys wins), KeyError for a missing key, TypeError on a non-dictionary.\<close>

definition json_getitem :: "json \<Rightarrow> string \<Rightarrow> json result" where
  "json_getitem j k =
     (case j of
        JObject kvs \<Rightarrow> (case map_of (rev kvs) k of None \<Rightarrow> Inl (KeyError k) | Some v \<Rightarrow> Inr v)
      | _ \<Rightarrow> Inl TypeError)"

text \<open>\<open>__main__.py\<close> lines 20--22: if the file exists, read it, decode it and take its
  \<open>concise\<close> entry; \<open>None\<close> if there is no file.\<close>

definition read_concise :: "string \<Rightarrow> fsys \<Rightarrow> json option result" where
  "read_concise path fs =
     (if py_exists fs path then
        (case py_read_file fs path of
           Inl e \<Rightarrow> Inl e
         | Inr text \<Rightarrow>
             (case json_loads text of
                Inl e \<Rightarrow> Inl e
              | Inr j \<Rightarrow> (case json_getitem j ''concise'' of Inl e \<Rightarrow> Inl e | Inr v \<Rightarrow> Inr (Some v))))
      else Inr None)"

text \<open>Specification side: the record a summary file describes.\<close>

definition summary_of_json :: "json \<Rightarrow> SummaryRecord option" where
  "summary_of_json j =
     (case j of
        JObject [(''url'', JString u), (''title'', JString t), (''detail'', JArray ds), (''concise'', JString c)] \<Rightarrow>
          (if list_all (\<lambda>d. case d of JString _ \<Rightarrow> True | _ \<Rightarrow> False) ds
           then Some \<lparr>sum_url = u, sum_title = t, sum_detail = map (\<lambda>d. case d of JString s \<Rightarrow> s | _ \<Rightarrow> []) ds,
                      sum_concise = c\<rparr>
           else None)
      | _ \<Rightarrow> None)"

text \<open>A concrete store for the witnesses: an empty file system, and a summary.\<close>

definition empty_fs :: fsys where
  "empty_fs = \<lparr>fs_files = Map.empty, fs_dirs = {}\<rparr>"

definition example_summary :: SummaryRecord where
  "example_summary = \<lparr>sum_url = ''u'', sum_title = ''t'', sum_detail = [''a'', ''b''], sum_concise = ''c''\<rparr>"

subsection \<open>Lemmas\<close>

lemma py_makedirs_files: "py_makedirs d fs = (r, fs') \<Longrightarrow> fs_files fs' = fs_files fs"
  by (auto simp: py_makedirs_def split: if_splits)

lemma py_write_file_files:
  "py_write_file p text fs = (r, fs') \<Longrightarrow>
   fs_files fs' = (if r = Inr () then (fs_files fs)(p \<mapsto> text) else fs_files fs)"
  by (auto simp: py_write_file_def split: if_splits)

lemma save_summary_cases:
  "save_summary p s fs = (r, fs') \<Longrightarrow>
   fs_files fs' = (if r = Inr () then (fs_files fs)(p \<mapsto> json_dumps (summary_json s)) else fs_files fs)"
  by (auto simp: save_summary_def Let_def py_write_file_def py_makedirs_def
           split: if_splits sum.splits prod.splits)

lemma summary_of_summary_json: "summary_of_json (summary_json r) = Some r"
  by (simp add: summary_json_def summary_of_json_def list_all_iff comp_def)

lemma json_getitem_summary: "json_getitem (summary_json r) ''concise'' = Inr (JString (sum_concise r))"
  by (simp add: summary_json_def json_getitem_def)

lemma save_summary_read:
  assumes "save_summary p s fs = (Inr (), fs')"
  shows "read_concise p fs' = Inr (Some (JString (sum_concise s)))"
proof -
  have "fs_files fs' p = Some (json_dumps (summary_json s))"
    using save_summary_cases [OF assms] by simp
  then show ?thesis
    by (simp add: read_concise_def py_exists_def py_read_file_def json_roundtrip json_getitem_summary domI)
qed

subsection \<open>Properties of the store\<close>

text \<open>C10: saving succeeds whenever the target is not a directory and its directory either
  exists or can be created (it is not a file); the file then holds the JSON text of the
  summary and the directory exists.\<close>

theorem save_summary_ok:
  assumes "p \<notin> fs_dirs fs" "py_dirname p \<noteq> []" "py_dirname p \<notin> dom (fs_files fs)"
    and "p \<noteq> py_dirname p"
  shows "\<exists>fs'. save_summary p s fs = (Inr (), fs') \<and>
               fs_files fs' = (fs_files fs)(p \<mapsto> json_dumps (summary_json s)) \<and>
               py_isdir fs' (py_dirname p)"
  using assms
  by (auto simp: save_summary_def Let_def py_makedirs_def py_write_file_def py_isdir_def py_exists_def)

text \<open>C11 (frame): saving a summary never changes any other file, whether it succeeds or
  fails; on failure it changes no file at all.\<close>

theorem save_summary_frame:
  assumes "save_summary p s fs = (r, fs')"
  shows "(\<forall>q. q \<noteq> p \<longrightarrow> fs_files fs' q = fs_files fs q) \<and>
         (r \<noteq> Inr () \<longrightarrow> fs_files fs' = fs_files fs)"
  using save_summary_cases [OF assms] by auto

text \<open>C12 (round trip): after a successful save, the QA command's read of the same path
  returns the concise summary, and the file decodes to exactly the saved record.\<close>

theorem save_then_read_roundtrip:
  assumes "save_summary p s fs = (Inr (), fs')"
  shows "read_concise p fs' = Inr (Some (JString (sum_concise s))) \<and>
         (\<exists>text. fs_files fs' p = Some text \<and> map_sum id summary_of_json (json_loads text) = Inr (Some s))"
proof -
  have f: "fs_files fs' p = Some (json_dumps (summary_json s))"
    using save_summary_cases [OF assms] by simp
  with save_summary_read [OF assms] show ?thesis by (simp add: json_roundtrip summary_of_summary_json)
qed

text \<open>C13 (every branch of the read): no file is no summary (not an error); a directory
  is IsADirectoryError; undecodable contents are JSONDecodeError; a decoded dictionary
  without \<open>concise\<close> is KeyError; a decoded non-dictionary is TypeError.\<close>

theorem read_concise_branches:
  "(\<not> py_exists fs p \<longrightarrow> read_concise p fs = Inr None) \<and>
   (fs_files fs p = None \<longrightarrow> p \<in> fs_dirs fs \<longrightarrow> read_concise p fs = Inl IsADirectoryError) \<and>
   (fs_files fs p = Some text \<longrightarrow> json_loads text = Inl e \<longrightarrow> read_concise p fs = Inl e) \<and>
   (fs_files fs p = Some text \<longrightarrow> json_loads text = Inr (JObject kvs) \<longrightarrow>
      map_of kvs ''concise'' = None \<longrightarrow> read_concise p fs = Inl (KeyError ''concise'')) \<and>
   (fs_files fs p = Some text \<longrightarrow> json_loads text = Inr (JString t) \<longrightarrow> read_concise p fs = Inl TypeError)"
  by (auto simp: read_concise_def py_exists_def py_read_file_def json_getitem_def domI map_of_rev_None)

subsection \<open>Witnesses\<close>

lemma example_paths: "py_dirname ''d/v'' = ''d''" "''d/v'' \<notin> fs_dirs empty_fs"
  "''d'' \<notin> dom (fs_files empty_fs)"
  by (simp_all add: py_dirname_def empty_fs_def)

lemma example_save:
  "save_summary ''d/v'' example_summary empty_fs =
   (Inr (), \<lparr>fs_files = [''d/v'' \<mapsto> json_dumps (summary_json example_summary)], fs_dirs = {''d''}\<rparr>)"
  by (simp add: save_summary_def example_paths py_isdir_def py_makedirs_def py_exists_def
                py_write_file_def empty_fs_def)

theorem save_summary_ok_witness:
  "\<exists>fs'. save_summary ''d/v'' example_summary empty_fs = (Inr (), fs') \<and> py_isdir fs' ''d''"
  using save_summary_ok [of "''d/v''" empty_fs example_summary] example_paths by auto

theorem save_summary_frame_witness:
  "fs_files \<lparr>fs_files = [''d/v'' \<mapsto> json_dumps (summary_json example_summary)], fs_dirs = {''d''}\<rparr> ''x'' =
   fs_files empty_fs ''x''"
  using save_summary_frame [OF example_save] by simp

theorem save_then_read_roundtrip_witness:
  "read_concise ''d/v'' \<lparr>fs_files = [''d/v'' \<mapsto> json_dumps (summary_json example_summary)], fs_dirs = {''d''}\<rparr> =
   Inr (Some (JString ''c''))"
  using save_then_read_roundtrip [OF example_save] by (simp add: example_summary_def)

theorem read_concise_branches_witness:
  "read_concise ''x'' empty_fs = Inr None \<and>
   read_concise ''x'' \<lparr>fs_files = [''x'' \<mapsto> ''{''], fs_dirs = {}\<rparr> = Inl JSONDecodeError"
proof -
  have "\<not> py_exists empty_fs ''x''" by (simp add: py_exists_def empty_fs_def)
  moreover have "json_loads ''{'' = Inl JSONDecodeError" by (simp add: json_loads_def)
  ultimately show ?thesis
    using read_concise_branches [of empty_fs "''x''"]
          read_concise_branches [of "\<lparr>fs_files = [''x'' \<mapsto> ''{''], fs_dirs = {}\<rparr>" "''x''" "''{''"]
    by simp
qed

end
