(* ===== verification/Summarize.thy ===== *)
theory Summarize
  imports Buckets Store
begin

text \<open>
  SummaryOrchestrator: the class \<open>YoutubeSummarize\<close> of \<open>src/yts/summarize.py\<close>. Its
  attributes are the record \<open>YoutubeSummarize\<close> (the LLM handle is left out: it is only
  passed on to the chain); the external collaborators (video metadata, transcript API,
  the LangChain map-reduce chain) are the fields of a \<open>services\<close> record, so every
  theorem holds for any behaviour of theirs. The chain is called with the number of
  chain calls made so far, so it may answer differently each time, and may fail.
  The program's effects are a \<open>world\<close>: the file system of \<open>Store\<close> and a log of the
  observable external events, chain calls (with their documents) and sleeps, in order.
  \<open>asyncio.gather\<close> of one task followed by \<open>run_until_complete\<close> is one awaited call.
  Strings are UTF-8 bytes; the two prompt templates are spelled out byte for byte.
\<close>

text \<open>Lines 18--32: the prompt templates.\<close>

definition MAP_PROMPT_TEMPLATE :: string where
  "MAP_PROMPT_TEMPLATE =
     [CHR 0xE4, CHR 0xBB, CHR 0xA5, CHR 0xE4, CHR 0xB8, CHR 0x8B, CHR 0xE3, CHR 0x81,
           CHR 0xAE, CHR 0xE5, CHR 0x86, CHR 0x85, CHR 0xE5, CHR 0xAE, CHR 0xB9, CHR 0xE3,
           CHR 0x82, CHR 0x92, CHR 0xE9, CHR 0x87, CHR 0x8D, CHR 0xE8, CHR 0xA6, CHR 0x81,
           CHR 0xE3, CHR 0x81, CHR 0xAA, CHR 0xE6, CHR 0x83, CHR 0x85, CHR 0xE5, CHR 0xA0,
           CHR 0xB1, CHR 0xE3, CHR 0x81, CHR 0xAF, CHR 0xE3, CHR 0x81, CHR 0xA7, CHR 0xE3,
           CHR 0x81, CHR 0x8D, CHR 0xE3, CHR 0x82, CHR 0x8B, CHR 0xE3, CHR 0x81, CHR 0xA0,
           CHR 0xE3, CHR 0x81, CHR 0x91, CHR 0xE6, CHR 0xAE, CHR 0x8B, CHR 0xE3, CHR 0x81,
           CHR 0x97, CHR 0xE3, CHR 0x81, CHR 0xA6, CHR 0xE8, CHR 0xA6, CHR 0x81, CHR 0xE7,
           CHR 0xB4, CHR 0x84, CHR 0xE3, CHR 0x81, CHR 0x97, CHR 0xE3, CHR 0x81, CHR 0xA6,
           CHR 0xE3, CHR 0x81, CHR 0x8F, CHR 0xE3, CHR 0x81, CHR 0xA0, CHR 0xE3, CHR 0x81,
           CHR 0x95, CHR 0xE3, CHR 0x81, CHR 0x84, CHR 0xE3, CHR 0x80, CHR 0x82]
        @ '':''
        @ [CHR 0x0A, CHR 0x0A, CHR 0x0A, CHR 0x22, CHR 0x7B]
        @ ''text''
        @ [CHR 0x7D, CHR 0x22, CHR 0x0A, CHR 0x0A, CHR 0x0A, CHR 0xE8, CHR 0xA6, CHR 0x81,
           CHR 0xE7, CHR 0xB4, CHR 0x84]
        @ '':''"

definition REDUCE_PROMPT_TEMPLATE :: string where
  "REDUCE_PROMPT_TEMPLATE =
     [CHR 0xE4, CHR 0xBB, CHR 0xA5, CHR 0xE4, CHR 0xB8, CHR 0x8B, CHR 0xE3, CHR 0x81,
           CHR 0xAE, CHR 0xE5, CHR 0x86, CHR 0x85, CHR 0xE5, CHR 0xAE, CHR 0xB9, CHR 0xE3,
           CHR 0x82, CHR 0x92]
        @ ''200''
        @ [CHR 0xE5, CHR 0xAD, CHR 0x97, CHR 0xE4, CHR 0xBB, CHR 0xA5, CHR 0xE5, CHR 0x86,
           CHR 0x85, CHR 0xE3, CHR 0x81, CHR 0xAE, CHR 0xE6, CHR 0x97, CHR 0xA5, CHR 0xE6,
           CHR 0x9C, CHR 0xAC, CHR 0xE8, CHR 0xAA, CHR 0x9E, CHR 0xE3, CHR 0x81, CHR 0xA7,
           CHR 0xE7, CHR 0xB0, CHR 0xA1, CHR 0xE6, CHR 0xBD, CHR 0x94, CHR 0xE3, CHR 0x81,
           CHR 0xAB, CHR 0xE8, CHR 0xA6, CHR 0x81, CHR 0xE7, CHR 0xB4, CHR 0x84, CHR 0xE3,
           CHR 0x81, CHR 0x97, CHR 0xE3, CHR 0x81, CHR 0xA6, CHR 0xE3, CHR 0x81, CHR 0x8F,
           CHR 0xE3, CHR 0x81, CHR 0xA0, CHR 0xE3, CHR 0x81, CHR 0x95, CHR 0xE3, CHR 0x81,
           CHR 0x84, CHR 0xE3, CHR 0x80, CHR 0x82]
        @ '':''
        @ [CHR 0x0A, CHR 0x0A, CHR 0x0A, CHR 0x22, CHR 0x7B]
        @ ''text''
        @ [CHR 0x7D, CHR 0x22, CHR 0x0A, CHR 0x0A, CHR 0x0A, CHR 0xE7, CHR 0xB0, CHR 0xA1,
           CHR 0xE6, CHR 0xBD, CHR 0x94, CHR 0xE3, CHR 0x81, CHR 0xAA, CHR 0xE8, CHR 0xA6,
           CHR 0x81, CHR 0xE7, CHR 0xB4, CHR 0x84]
        @ '':''"

text \<open>Lines 35--52: the object's attributes.\<close>

record YoutubeSummarize =
  vid :: string
  debug :: bool
  url :: string
  title :: string
  summary_file :: string
  chain_type :: string
  chunks :: "chunk list"

text \<open>Lines 77--83: the arguments of \<open>load_summarize_chain\<close>.\<close>

record chain_config =
  cc_chain_type :: string
  cc_map_prompt :: string
  cc_combine_prompt :: string
  cc_verbose :: bool

text \<open>The collaborators: \<open>setup_llm_from_environment()\<close> (\<open>yts/utils.py\<close>, not under
  \<open>src/\<close>: it reads the environment and may raise), the video title of \<open>pytube\<close>, the
  transcript of \<open>YouTubeTranscriptApi\<close>, and the chain's \<open>n\<close>-th invocation on a list of
  documents.\<close>

record services =
  sv_setup_llm :: "(string \<rightharpoonup> string) \<Rightarrow> unit result"
  sv_title :: "string \<Rightarrow> string result"
  sv_transcript :: "string \<Rightarrow> string list \<Rightarrow> fragment list result"
  sv_chain :: "chain_config \<Rightarrow> nat \<Rightarrow> string list \<Rightarrow> string result"

datatype event = ChainCall "string list" | Sleep nat

record world =
  w_fs :: fsys
  w_log :: "event list"

fun is_chain_call :: "event \<Rightarrow> bool" where
  "is_chain_call (ChainCall _) = True"
| "is_chain_call (Sleep _) = False"

definition chain_calls :: "event list \<Rightarrow> nat" where
  "chain_calls evs = length (filter is_chain_call evs)"

text \<open>Lines 36--52: \<open>__init__\<close>. ValueError on an empty id, KeyError when
  \<open>SUMMARY_STORE_DIR\<close> is not set (line 48), then whatever \<open>setup_llm_from_environment()\<close>
  raises (line 51). The LLM handle itself is only passed to the chain, which is the
  \<open>sv_chain\<close> collaborator, so the record does not keep it.\<close>

definition YoutubeSummarize_init ::
  "services \<Rightarrow> (string \<rightharpoonup> string) \<Rightarrow> string \<Rightarrow> bool \<Rightarrow> YoutubeSummarize result" where
  "YoutubeSummarize_init sv environ v dbg =
     (if v = [] then Inl (ValueError ''video id is invalid.'')
      else
        (case environ ''SUMMARY_STORE_DIR'' of
           None \<Rightarrow> Inl (KeyError ''SUMMARY_STORE_DIR'')
         | Some d \<Rightarrow>
             (case sv_setup_llm sv environ of
                Inl e \<Rightarrow> Inl e
              | Inr _ \<Rightarrow>
                  Inr \<lparr>vid = v, debug = dbg, url = ''https://www.youtube.com/watch?v='' @ v, title = [],
                       summary_file = d @ ''/'' @ v, chain_type = ''map_reduce'', chunks = []\<rparr>)))"

text \<open>Lines 55--59: \<open>_debug\<close>, the text it prints.\<close>

definition debug_output :: "YoutubeSummarize \<Rightarrow> string \<Rightarrow> string \<Rightarrow> string" where
  "debug_output ys message line_end = (if debug ys = False then [] else message @ line_end)"

text \<open>Lines 62--73: \<open>prepare\<close>: the title, then the transcript in the first available of
  Japanese, English, US English, then the chunks.\<close>

definition transcript_languages :: "string list" where
  "transcript_languages = [''ja'', ''en'', ''en-US'']"

definition prepare :: "services \<Rightarrow> YoutubeSummarize \<Rightarrow> YoutubeSummarize result" where
  "prepare sv ys =
     (case sv_title sv (url ys) of
        Inl e \<Rightarrow> Inl e
      | Inr t \<Rightarrow>
          (case sv_transcript sv (vid ys) transcript_languages of
             Inl e \<Rightarrow> Inl e
           | Inr transcriptions \<Rightarrow>
               (case prepare_chunks (vid ys) transcriptions of
                  Inl e \<Rightarrow> Inl e
                | Inr cs \<Rightarrow> Inr (ys\<lparr>title := t, chunks := cs\<rparr>))))"

text \<open>Lines 77--83: the chain configuration.\<close>

definition summarize_chain_config :: "YoutubeSummarize \<Rightarrow> chain_config" where
  "summarize_chain_config ys =
     \<lparr>cc_chain_type = chain_type ys, cc_map_prompt = MAP_PROMPT_TEMPLATE,
      cc_combine_prompt = REDUCE_PROMPT_TEMPLATE, cc_verbose = debug ys\<rparr>"

text \<open>Lines 86--89 and 97--100: one awaited \<open>chain.arun\<close> on the documents.\<close>

definition chain_call :: "services \<Rightarrow> chain_config \<Rightarrow> string list \<Rightarrow> world \<Rightarrow> string result \<times> world" where
  "chain_call sv cfg docs w =
     (sv_chain sv cfg (chain_calls (w_log w)) docs, w\<lparr>w_log := w_log w @ [ChainCall docs]\<rparr>)"

text \<open>Lines 94--100: the detail loop; a three-second sleep before every bucket but the
  first; an exception ends the loop.\<close>

fun detail_loop ::
  "services \<Rightarrow> chain_config \<Rightarrow> nat \<Rightarrow> chunk list list \<Rightarrow> world \<Rightarrow> string list result \<times> world" where
  "detail_loop sv cfg idx [] w = (Inr [], w)"
| "detail_loop sv cfg idx (cs # css) w =
     (let w1 = (if 0 < idx then w\<lparr>w_log := w_log w @ [Sleep 3]\<rparr> else w);
          (r, w2) = chain_call sv cfg (map tr_text cs) w1
      in case r of
           Inl e \<Rightarrow> (Inl e, w2)
         | Inr s \<Rightarrow>
             (case detail_loop sv cfg (Suc idx) css w2 of
                (Inl e, w3) \<Rightarrow> (Inl e, w3)
              | (Inr ss, w3) \<Rightarrow> (Inr (s # ss), w3)))"

text \<open>Lines 76--114: \<open>run\<close>.\<close>

definition run :: "services \<Rightarrow> YoutubeSummarize \<Rightarrow> world \<Rightarrow> SummaryRecord result \<times> world" where
  "run sv ys w =
     (let cfg = summarize_chain_config ys;
          (r1, w1) = chain_call sv cfg (map tr_text (chunks ys)) w
      in case r1 of
           Inl e \<Rightarrow> (Inl e, w1)
         | Inr concise_summary \<Rightarrow>
             (case divide_chunks_by_time (chunks ys) 5 of
                Inl e \<Rightarrow> (Inl e, w1)
              | Inr splited_chunks \<Rightarrow>
                  (let (r2, w2) = detail_loop sv cfg 0 splited_chunks w1
                   in case r2 of
                        Inl e \<Rightarrow> (Inl e, w2)
                      | Inr detail_summary \<Rightarrow>
                          (let summary = \<lparr>sum_url = url ys, sum_title = title ys,
                                          sum_detail = detail_summary, sum_concise = concise_summary\<rparr>;
                               (r3, fs') = save_summary (summary_file ys) summary (w_fs w2)
                           in ((case r3 of Inl e \<Rightarrow> Inl e | Inr _ \<Rightarrow> Inr summary),
                               w2\<lparr>w_fs := fs'\<rparr>)))))"

text \<open>Specification side: the planned sequence of external events of a run over the
  documents of all chunks and of each bucket: the concise call, then the bucket calls,
  a three-second sleep between consecutive bucket calls.\<close>

fun paced_calls :: "string list list \<Rightarrow> event list" where
  "paced_calls [] = []"
| "paced_calls (b # bs) = ChainCall b # concat (map (\<lambda>b'. [Sleep 3, ChainCall b']) bs)"

text \<open>Concrete collaborators for the witnesses: a one-fragment transcript, a chain that always
  answers, and one that fails from its second call on (the first bucket).\<close>

text \<open>The object's well-formedness: what \<open>__init__\<close> establishes for the configured
  store directory and \<open>prepare\<close> keeps, the chunk ids being \<open>vid-0, vid-1, ...\<close>.\<close>

definition ys_wf :: "string \<Rightarrow> YoutubeSummarize \<Rightarrow> bool" where
  "ys_wf dir ys \<longleftrightarrow>
     vid ys \<noteq> [] \<and> url ys = ''https://www.youtube.com/watch?v='' @ vid ys \<and>
     summary_file ys = dir @ ''/'' @ vid ys \<and> chain_type ys = ''map_reduce'' \<and>
     map chunk_id (chunks ys) = map (\<lambda>i. vid ys @ ''-'' @ py_str_nat i) [0..<length (chunks ys)]"

definition example_services :: services where
  "example_services =
     \<lparr>sv_setup_llm = (\<lambda>env. Inr ()), sv_title = (\<lambda>u. Inr ''T''),
      sv_transcript = (\<lambda>v langs. Inr [\<lparr>tr_text = ''hi'', tr_start = 0, tr_duration = 10\<rparr>]),
      sv_chain = (\<lambda>cfg n docs. Inr ''S'')\<rparr>"

definition failing_services :: services where
  "failing_services =
     example_services\<lparr>sv_chain := (\<lambda>cfg n docs. if n = 0 then Inr ''S'' else Inl (ChainInvocationError ''rate''))\<rparr>"

definition example_ys :: YoutubeSummarize where
  "example_ys =
     \<lparr>vid = ''v'', debug = False, url = ''u'', title = ''T'', summary_file = ''d/v'',
      chain_type = ''map_reduce'',
      chunks = [\<lparr>tr_text = ''hi'', tr_start = 0, tr_duration = 10, chunk_id = ''v-0''\<rparr>]\<rparr>"

definition example_world :: world where
  "example_world = \<lparr>w_fs = empty_fs, w_log = []\<rparr>"

subsection \<open>Lemmas: chain calls and the detail loop\<close>

lemma chain_calls_append [simp]:
  "chain_calls (xs @ [ChainCall d]) = Suc (chain_calls xs)"
  "chain_calls (xs @ [Sleep n]) = chain_calls xs"
  "chain_calls (xs @ ys) = chain_calls xs + chain_calls ys"
  by (simp_all add: chain_calls_def)

lemma chain_calls_simps [simp]:
  "chain_calls [] = 0" "chain_calls (ChainCall d # xs) = Suc (chain_calls xs)"
  "chain_calls (Sleep n # xs) = chain_calls xs"
  by (simp_all add: chain_calls_def)

lemma chain_call_eq:
  "chain_call sv cfg docs w = (sv_chain sv cfg (chain_calls (w_log w)) docs, w\<lparr>w_log := w_log w @ [ChainCall docs]\<rparr>)"
  by (simp add: chain_call_def)

abbreviation bucket_docs :: "chunk list list \<Rightarrow> string list list" where
  "bucket_docs css \<equiv> map (map tr_text) css"

abbreviation paced_tail :: "string list list \<Rightarrow> event list" where
  "paced_tail bs \<equiv> concat (map (\<lambda>b. [Sleep 3, ChainCall b]) bs)"

lemma detail_loop_fs: "detail_loop sv cfg idx css w = (r, w') \<Longrightarrow> w_fs w' = w_fs w"
proof (induction css arbitrary: idx w r w')
  case (Cons cs css)
  then show ?case
    by (auto simp: Let_def chain_call_eq split: sum.splits prod.splits if_splits)
qed simp

text \<open>A successful loop from a non-first bucket: a sleep and a call per bucket, the
  answers in order.\<close>

lemma detail_loop_Suc_ok:
  "detail_loop sv cfg (Suc idx) css w = (Inr ss, w') \<Longrightarrow>
   w_log w' = w_log w @ paced_tail (bucket_docs css) \<and> length ss = length css \<and>
   (\<forall>i < length css. sv_chain sv cfg (chain_calls (w_log w) + i) (map tr_text (css ! i)) = Inr (ss ! i))"
proof (induction css arbitrary: idx w ss w')
  case Nil
  then show ?case by simp
next
  case (Cons cs css)
  let ?w1 = "w\<lparr>w_log := w_log w @ [Sleep 3]\<rparr>"
  let ?w2 = "?w1\<lparr>w_log := w_log ?w1 @ [ChainCall (map tr_text cs)]\<rparr>"
  obtain s where s: "sv_chain sv cfg (chain_calls (w_log w)) (map tr_text cs) = Inr s"
    using Cons.prems by (auto simp: Let_def chain_call_eq split: sum.splits prod.splits)
  obtain ss' where rest: "detail_loop sv cfg (Suc (Suc idx)) css ?w2 = (Inr ss', w')" and ss: "ss = s # ss'"
    using Cons.prems s by (auto simp: Let_def chain_call_eq split: sum.splits prod.splits)
  from Cons.IH [OF rest] have IH:
    "w_log w' = w_log ?w2 @ paced_tail (bucket_docs css) \<and> length ss' = length css \<and>
     (\<forall>i < length css. sv_chain sv cfg (chain_calls (w_log ?w2) + i) (map tr_text (css ! i)) = Inr (ss' ! i))" .
  have "\<forall>i < length (cs # css). sv_chain sv cfg (chain_calls (w_log w) + i) (map tr_text ((cs # css) ! i)) =
          Inr (ss ! i)"
  proof (intro allI impI)
    fix i assume "i < length (cs # css)"
    then show "sv_chain sv cfg (chain_calls (w_log w) + i) (map tr_text ((cs # css) ! i)) = Inr (ss ! i)"
      using IH s ss by (cases i) auto
  qed
  with IH ss show ?case by simp
qed

lemma detail_loop_0_ok:
  "detail_loop sv cfg 0 css w = (Inr ss, w') \<Longrightarrow>
   w_log w' = w_log w @ paced_calls (bucket_docs css) \<and> length ss = length css \<and>
   (\<forall>i < length css. sv_chain sv cfg (chain_calls (w_log w) + i) (map tr_text (css ! i)) = Inr (ss ! i))"
proof (cases css)
  case Nil
  assume "detail_loop sv cfg 0 css w = (Inr ss, w')"
  with Nil show ?thesis by simp
next
  case (Cons cs css')
  assume run: "detail_loop sv cfg 0 css w = (Inr ss, w')"
  let ?w2 = "w\<lparr>w_log := w_log w @ [ChainCall (map tr_text cs)]\<rparr>"
  obtain s where s: "sv_chain sv cfg (chain_calls (w_log w)) (map tr_text cs) = Inr s"
    using run Cons by (auto simp: Let_def chain_call_eq split: sum.splits prod.splits)
  obtain ss' where rest: "detail_loop sv cfg (Suc 0) css' ?w2 = (Inr ss', w')" and ss: "ss = s # ss'"
    using run Cons s by (auto simp: Let_def chain_call_eq split: sum.splits prod.splits)
  note IH = detail_loop_Suc_ok [OF rest]
  have "\<forall>i < length css. sv_chain sv cfg (chain_calls (w_log w) + i) (map tr_text (css ! i)) = Inr (ss ! i)"
  proof (intro allI impI)
    fix i assume "i < length css"
    then show "sv_chain sv cfg (chain_calls (w_log w) + i) (map tr_text (css ! i)) = Inr (ss ! i)"
      using IH s ss Cons by (cases i) auto
  qed
  with IH ss Cons show ?thesis by simp
qed

text \<open>A failed loop has made a prefix of the planned events and stops there.\<close>

lemma detail_loop_Suc_fail:
  "detail_loop sv cfg (Suc idx) css w = (Inl e, w') \<Longrightarrow>
   \<exists>k < length css. (\<forall>i < k. \<exists>s. sv_chain sv cfg (chain_calls (w_log w) + i) (map tr_text (css ! i)) = Inr s) \<and>
      sv_chain sv cfg (chain_calls (w_log w) + k) (map tr_text (css ! k)) = Inl e \<and>
      w_log w' = w_log w @ paced_tail (bucket_docs (take (Suc k) css))"
proof (induction css arbitrary: idx w w')
  case Nil
  then show ?case by simp
next
  case (Cons cs css)
  let ?w2 = "w\<lparr>w_log := w_log w @ [Sleep 3] @ [ChainCall (map tr_text cs)]\<rparr>"
  show ?case
  proof (cases "sv_chain sv cfg (chain_calls (w_log w)) (map tr_text cs)")
    case (Inl e')
    with Cons.prems show ?thesis
      by (intro exI [of _ 0]) (auto simp: Let_def chain_call_eq split: prod.splits)
  next
    case (Inr s)
    with Cons.prems have rest: "detail_loop sv cfg (Suc (Suc idx)) css ?w2 = (Inl e, w')"
      by (auto simp: Let_def chain_call_eq split: sum.splits prod.splits)
    from Cons.IH [OF rest] obtain k where k: "k < length css"
      "\<forall>i < k. \<exists>s. sv_chain sv cfg (Suc (chain_calls (w_log w)) + i) (map tr_text (css ! i)) = Inr s"
      "sv_chain sv cfg (Suc (chain_calls (w_log w)) + k) (map tr_text (css ! k)) = Inl e"
      "w_log w' = w_log ?w2 @ paced_tail (bucket_docs (take (Suc k) css))"
      by auto
    have "\<forall>i < Suc k. \<exists>s. sv_chain sv cfg (chain_calls (w_log w) + i) (map tr_text ((cs # css) ! i)) = Inr s"
      using k(2) Inr by (auto simp: less_Suc_eq_0_disj)
    with k show ?thesis by (intro exI [of _ "Suc k"]) simp
  qed
qed

lemma detail_loop_0_fail:
  "detail_loop sv cfg 0 css w = (Inl e, w') \<Longrightarrow>
   \<exists>k < length css. (\<forall>i < k. \<exists>s. sv_chain sv cfg (chain_calls (w_log w) + i) (map tr_text (css ! i)) = Inr s) \<and>
      sv_chain sv cfg (chain_calls (w_log w) + k) (map tr_text (css ! k)) = Inl e \<and>
      w_log w' = w_log w @ paced_calls (bucket_docs (take (Suc k) css))"
proof (cases css)
  case Nil
  assume "detail_loop sv cfg 0 css w = (Inl e, w')"
  with Nil show ?thesis by simp
next
  case (Cons cs css')
  assume run: "detail_loop sv cfg 0 css w = (Inl e, w')"
  let ?w2 = "w\<lparr>w_log := w_log w @ [ChainCall (map tr_text cs)]\<rparr>"
  show ?thesis
  proof (cases "sv_chain sv cfg (chain_calls (w_log w)) (map tr_text cs)")
    case (Inl e')
    with run Cons show ?thesis
      by (intro exI [of _ 0]) (auto simp: Let_def chain_call_eq split: prod.splits)
  next
    case (Inr s)
    with run Cons have rest: "detail_loop sv cfg (Suc 0) css' ?w2 = (Inl e, w')"
      by (auto simp: Let_def chain_call_eq split: sum.splits prod.splits)
    from detail_loop_Suc_fail [OF rest] obtain k where k: "k < length css'"
      "\<forall>i < k. \<exists>s. sv_chain sv cfg (Suc (chain_calls (w_log w)) + i) (map tr_text (css' ! i)) = Inr s"
      "sv_chain sv cfg (Suc (chain_calls (w_log w)) + k) (map tr_text (css' ! k)) = Inl e"
      "w_log w' = w_log ?w2 @ paced_tail (bucket_docs (take (Suc k) css'))"
      by auto
    have "\<forall>i < Suc k. \<exists>s. sv_chain sv cfg (chain_calls (w_log w) + i) (map tr_text ((cs # css') ! i)) = Inr s"
      using k(2) Inr by (auto simp: less_Suc_eq_0_disj)
    with k Cons show ?thesis by (intro exI [of _ "Suc k"]) simp
  qed
qed

subsection \<open>Lemmas: the outcomes of \<open>run\<close>\<close>

abbreviation concise_world :: "YoutubeSummarize \<Rightarrow> world \<Rightarrow> world" where
  "concise_world ys w \<equiv> w\<lparr>w_log := w_log w @ [ChainCall (map tr_text (chunks ys))]\<rparr>"

lemma run_Inr_cases:
  assumes "run sv ys w = (Inr s, w')"
  obtains c bs w2 fs' where
    "sv_chain sv (summarize_chain_config ys) (chain_calls (w_log w)) (map tr_text (chunks ys)) = Inr c"
    "divide_chunks_by_time (chunks ys) 5 = Inr bs"
    "detail_loop sv (summarize_chain_config ys) 0 bs (concise_world ys w) = (Inr (sum_detail s), w2)"
    "s = \<lparr>sum_url = url ys, sum_title = title ys, sum_detail = sum_detail s, sum_concise = c\<rparr>"
    "save_summary (summary_file ys) s (w_fs w2) = (Inr (), fs')" "w' = w2\<lparr>w_fs := fs'\<rparr>"
  using assms
  by (auto simp: run_def Let_def chain_call_eq split: sum.splits prod.splits)

lemma run_Inl_cases:
  assumes "run sv ys w = (Inl e, w')"
  shows "(sv_chain sv (summarize_chain_config ys) (chain_calls (w_log w)) (map tr_text (chunks ys)) = Inl e \<and>
          w' = concise_world ys w) \<or>
         (\<exists>c. sv_chain sv (summarize_chain_config ys) (chain_calls (w_log w)) (map tr_text (chunks ys)) = Inr c \<and>
            divide_chunks_by_time (chunks ys) 5 = Inl e \<and> w' = concise_world ys w) \<or>
         (\<exists>bs. divide_chunks_by_time (chunks ys) 5 = Inr bs \<and>
            ((\<exists>w2. detail_loop sv (summarize_chain_config ys) 0 bs (concise_world ys w) = (Inl e, w2) \<and> w' = w2) \<or>
             (\<exists>ds w2 fs' s. detail_loop sv (summarize_chain_config ys) 0 bs (concise_world ys w) = (Inr ds, w2) \<and>
                save_summary (summary_file ys) s (w_fs w2) = (Inl e, fs') \<and> w' = w2\<lparr>w_fs := fs'\<rparr>)))"
  using assms
  by (auto simp: run_def Let_def chain_call_eq split: sum.splits prod.splits)

lemma run_saved:
  assumes "run sv ys w = (Inr s, w')"
  shows "read_concise (summary_file ys) (w_fs w') = Inr (Some (JString (sum_concise s)))"
proof -
  obtain w2 fs' where sv: "save_summary (summary_file ys) s (w_fs w2) = (Inr (), fs')"
    and w': "w' = w2\<lparr>w_fs := fs'\<rparr>"
    using run_Inr_cases [OF assms] by metis
  show ?thesis using save_summary_read [OF sv] w' by simp
qed

lemma run_stored:
  assumes "run sv ys w = (Inr s, w')"
  shows "fs_files (w_fs w') (summary_file ys) = Some (json_dumps (summary_json s)) \<and> sum_url s = url ys"
proof -
  obtain w2 fs' where sv: "save_summary (summary_file ys) s (w_fs w2) = (Inr (), fs')"
    and w': "w' = w2\<lparr>w_fs := fs'\<rparr>"
    and s: "s = \<lparr>sum_url = url ys, sum_title = title ys, sum_detail = sum_detail s, sum_concise = sum_concise s\<rparr>"
    using run_Inr_cases [OF assms] by (metis SummaryRecord.select_convs(4))
  have "sum_url s = url ys" by (subst s) simp
  then show ?thesis using save_summary_cases [OF sv] w' by simp
qed

lemma run_Inl_files:
  assumes "run sv ys w = (Inl e, w')"
  shows "fs_files (w_fs w') = fs_files (w_fs w)"
  using run_Inl_cases [OF assms]
proof (elim disjE exE conjE)
  assume "w' = concise_world ys w"
  then show ?thesis by simp
next
  assume "w' = concise_world ys w"
  then show ?thesis by simp
next
  fix bs w2
  assume "detail_loop sv (summarize_chain_config ys) 0 bs (concise_world ys w) = (Inl e, w2)" "w' = w2"
  then show ?thesis by (auto dest: detail_loop_fs)
next
  fix bs ds w2 fs' s
  assume d: "detail_loop sv (summarize_chain_config ys) 0 bs (concise_world ys w) = (Inr ds, w2)"
    and sv: "save_summary (summary_file ys) s (w_fs w2) = (Inl e, fs')" and w': "w' = w2\<lparr>w_fs := fs'\<rparr>"
  have "fs_files fs' = fs_files (w_fs w2)" using save_summary_cases [OF sv] by simp
  with detail_loop_fs [OF d] w' show ?thesis by simp
qed

lemma prepare_keeps:
  "prepare sv ys = Inr ys' \<Longrightarrow> summary_file ys' = summary_file ys \<and> url ys' = url ys"
  by (auto simp: prepare_def split: sum.splits)

lemma prepare_Inr:
  assumes "prepare sv ys = Inr ys'"
  obtains t ts cs where "sv_transcript sv (vid ys) transcript_languages = Inr ts"
    "prepare_chunks (vid ys) ts = Inr cs" "ys' = ys\<lparr>title := t, chunks := cs\<rparr>"
  using assms by (auto simp: prepare_def split: sum.splits)

lemma prepare_chunks_ids:
  assumes "prepare_chunks v ts = Inr cs"
  shows "map chunk_id cs = map (\<lambda>i. v @ ''-'' @ py_str_nat i) [0..<length cs]"
proof -
  let ?gs = "chunk_groups MAXLENGTH OVERLAP_LENGTH [] [] ts"
  have cs: "cs = map2 (make_chunk v) [0..<length ?gs] ?gs"
    using assms by (simp add: prepare_chunks_def divide_transcriptions_into_chunks_Inr)
  show ?thesis unfolding cs length_map2_upt by (rule map_make_chunk(3))
qed

lemma chain_calls_paced: "chain_calls (paced_calls bs) = length bs"
proof (cases bs)
  case (Cons b bs')
  have "chain_calls (paced_tail bs') = length bs'" by (induction bs') simp_all
  with Cons show ?thesis by simp
qed simp

lemma py_dirname_summary_file:
  assumes "d \<noteq> []" "last d \<noteq> CHR ''/''" "CHR ''/'' \<notin> set v"
  shows "py_dirname (d @ CHR ''/'' # v) = d"
proof -
  have tw: "takeWhile (\<lambda>c. c \<noteq> CHR ''/'') (rev (d @ ''/'' @ v)) = rev v"
    using assms(3) by (auto simp: takeWhile_append)
  have head: "take (length (d @ ''/'' @ v) - length (rev v)) (d @ ''/'' @ v) = d @ ''/''"
    by simp
  have "d @ ''/'' \<noteq> replicate (length (d @ ''/'')) (CHR ''/'')"
  proof
    assume h: "d @ ''/'' = replicate (length (d @ ''/'')) (CHR ''/'')"
    have "last d \<in> set (replicate (length (d @ ''/'')) (CHR ''/''))"
      by (subst h [symmetric]) (simp add: assms(1))
    with assms(2) show False by simp
  qed
  moreover have "dropWhile (\<lambda>c. c = CHR ''/'') (rev d) = rev d"
    using assms(1,2) by (cases "rev d") (auto simp: last_rev [symmetric])
  ultimately show ?thesis
    using tw head by (simp add: py_dirname_def Let_def)
qed

lemma example_prepare_chunks:
  "prepare_chunks ''v'' [\<lparr>tr_text = ''hi'', tr_start = 0, tr_duration = 10\<rparr>] =
   Inr [\<lparr>tr_text = ''hi'', tr_start = 0, tr_duration = 10, chunk_id = ''v-0''\<rparr>]"
  by (simp add: prepare_chunks_def MAXLENGTH_def OVERLAP_LENGTH_def divide_transcriptions_into_chunks_def
                make_chunk_def join_texts_def py_str_nat.simps)

lemma example_run:
  "run example_services example_ys example_world =
   (Inr \<lparr>sum_url = ''u'', sum_title = ''T'', sum_detail = [''S''], sum_concise = ''S''\<rparr>,
    \<lparr>w_fs = \<lparr>fs_files = [''d/v'' \<mapsto> json_dumps (summary_json
                    \<lparr>sum_url = ''u'', sum_title = ''T'', sum_detail = [''S''], sum_concise = ''S''\<rparr>)],
             fs_dirs = {''d''}\<rparr>,
     w_log = [ChainCall [''hi''], ChainCall [''hi'']]\<rparr>)"
  by (simp add: run_def example_services_def example_ys_def example_world_def chain_call_eq
                bucket_eval save_summary_def example_paths py_isdir_def py_makedirs_def py_exists_def
                py_write_file_def empty_fs_def)

lemma example_run_fails:
  "run failing_services example_ys example_world =
   (Inl (ChainInvocationError ''rate''), \<lparr>w_fs = empty_fs, w_log = [ChainCall [''hi''], ChainCall [''hi'']]\<rparr>)"
  by (simp add: run_def failing_services_def example_services_def example_ys_def example_world_def
                chain_call_eq bucket_eval)

subsection \<open>Properties of the summariser\<close>

text \<open>C14 (fail-fast): a run that ends in an exception, whichever call raised it (the
  concise chain call, the bucketing, a bucket's chain call or the write), leaves every
  file as it was: no partial summary is ever stored.\<close>

theorem run_fail_fast:
  assumes "run sv ys w = (Inl e, w')"
  shows "fs_files (w_fs w') = fs_files (w_fs w)"
  using assms by (rule run_Inl_files)
text \<open>C15 (functional): a successful run stores, at the summary file, the JSON text of a
  record holding the video's URL and title, as concise summary the chain's answer on all
  chunks (the first call), and one detail summary per time bucket, in bucket order, each
  the answer of the next call on that bucket's chunks.\<close>

theorem run_success:
  assumes "run sv ys w = (Inr s, w')"
  shows "\<exists>bs. divide_chunks_by_time (chunks ys) 5 = Inr bs \<and>
     sv_chain sv (summarize_chain_config ys) (chain_calls (w_log w)) (map tr_text (chunks ys)) = Inr (sum_concise s) \<and>
     length (sum_detail s) = length bs \<and>
     (\<forall>i < length bs. sv_chain sv (summarize_chain_config ys) (Suc (chain_calls (w_log w)) + i)
                        (map tr_text (bs ! i)) = Inr (sum_detail s ! i)) \<and>
     sum_url s = url ys \<and> sum_title s = title ys \<and>
     fs_files (w_fs w') = (fs_files (w_fs w))(summary_file ys \<mapsto> json_dumps (summary_json s))"
proof -
  obtain c bs w2 fs' where c: "sv_chain sv (summarize_chain_config ys) (chain_calls (w_log w)) (map tr_text (chunks ys)) = Inr c"
    and bs: "divide_chunks_by_time (chunks ys) 5 = Inr bs"
    and d: "detail_loop sv (summarize_chain_config ys) 0 bs (concise_world ys w) = (Inr (sum_detail s), w2)"
    and s: "s = \<lparr>sum_url = url ys, sum_title = title ys, sum_detail = sum_detail s, sum_concise = c\<rparr>"
    and sv: "save_summary (summary_file ys) s (w_fs w2) = (Inr (), fs')" and w': "w' = w2\<lparr>w_fs := fs'\<rparr>"
    using run_Inr_cases [OF assms] by metis
  note loop = detail_loop_0_ok [OF d]
  have "fs_files fs' = (fs_files (w_fs w2))(summary_file ys \<mapsto> json_dumps (summary_json s))"
    using save_summary_cases [OF sv] by simp
  moreover have "w_fs w2 = w_fs w" using detail_loop_fs [OF d] by simp
  moreover have "sum_concise s = c" "sum_url s = url ys" "sum_title s = title ys"
    using s by (metis SummaryRecord.select_convs)+
  ultimately show ?thesis using c bs loop w' by auto
qed

text \<open>C16 (ordering): the external events of a successful run are exactly the concise call
  on all chunks, then one call per bucket in bucket order, with a three-second sleep
  between consecutive bucket calls and none elsewhere.\<close>

theorem run_trace:
  assumes "run sv ys w = (Inr s, w')"
  shows "\<exists>bs. divide_chunks_by_time (chunks ys) 5 = Inr bs \<and>
              w_log w' = w_log w @ ChainCall (map tr_text (chunks ys)) # paced_calls (map (map tr_text) bs)"
proof -
  obtain c bs w2 fs' where bs: "divide_chunks_by_time (chunks ys) 5 = Inr bs"
    and d: "detail_loop sv (summarize_chain_config ys) 0 bs (concise_world ys w) = (Inr (sum_detail s), w2)"
    and w': "w' = w2\<lparr>w_fs := fs'\<rparr>"
    using run_Inr_cases [OF assms] by metis
  with detail_loop_0_ok [OF d] show ?thesis by auto
qed

text \<open>C17 (ordering on failure): a failed run stops at the failing step and makes no
  event after it. Either the concise call raised (it is then the only event), or the
  bucketing raised after it, or the \<open>k\<close>-th bucket call raised after the earlier bucket
  calls succeeded and the log ends with that call, or every call succeeded and the
  write raised.\<close>

theorem run_fail_trace:
  assumes "run sv ys w = (Inl e, w')"
  shows "(sv_chain sv (summarize_chain_config ys) (chain_calls (w_log w)) (map tr_text (chunks ys)) = Inl e \<and>
          w_log w' = w_log w @ [ChainCall (map tr_text (chunks ys))]) \<or>
         (divide_chunks_by_time (chunks ys) 5 = Inl e \<and>
          w_log w' = w_log w @ [ChainCall (map tr_text (chunks ys))]) \<or>
         (\<exists>bs k. divide_chunks_by_time (chunks ys) 5 = Inr bs \<and> k < length bs \<and>
            (\<forall>i < k. \<exists>s. sv_chain sv (summarize_chain_config ys) (Suc (chain_calls (w_log w)) + i)
                             (map tr_text (bs ! i)) = Inr s) \<and>
            sv_chain sv (summarize_chain_config ys) (Suc (chain_calls (w_log w)) + k) (map tr_text (bs ! k)) = Inl e \<and>
            w_log w' = w_log w @ ChainCall (map tr_text (chunks ys)) # paced_calls (bucket_docs (take (Suc k) bs))) \<or>
         (\<exists>bs s fs'. divide_chunks_by_time (chunks ys) 5 = Inr bs \<and>
            w_log w' = w_log w @ ChainCall (map tr_text (chunks ys)) # paced_calls (bucket_docs bs) \<and>
            save_summary (summary_file ys) s (w_fs w) = (Inl e, fs'))"
  using run_Inl_cases [OF assms]
proof (elim disjE exE conjE)
  fix bs w2
  assume bs: "divide_chunks_by_time (chunks ys) 5 = Inr bs"
    and d: "detail_loop sv (summarize_chain_config ys) 0 bs (concise_world ys w) = (Inl e, w2)" and "w' = w2"
  with detail_loop_0_fail [OF d] show ?thesis by auto
next
  fix bs ds w2 fs' s
  assume bs: "divide_chunks_by_time (chunks ys) 5 = Inr bs"
    and d: "detail_loop sv (summarize_chain_config ys) 0 bs (concise_world ys w) = (Inr ds, w2)"
    and sv: "save_summary (summary_file ys) s (w_fs w2) = (Inl e, fs')" and "w' = w2\<lparr>w_fs := fs'\<rparr>"
  with detail_loop_0_ok [OF d] detail_loop_fs [OF d] show ?thesis by auto
qed auto

text \<open>C18 (bounds): a successful run makes one chain call more than it has buckets, and it has
  between one and six buckets (five plus the overflow bucket of the clamp).\<close>

theorem run_call_bounds:
  assumes "run sv ys w = (Inr s, w')"
  shows "chain_calls (w_log w') = chain_calls (w_log w) + Suc (length (sum_detail s)) \<and>
         1 \<le> length (sum_detail s) \<and> length (sum_detail s) \<le> 6"
proof -
  obtain c bs w2 fs' where bs: "divide_chunks_by_time (chunks ys) 5 = Inr bs"
    and d: "detail_loop sv (summarize_chain_config ys) 0 bs (concise_world ys w) = (Inr (sum_detail s), w2)"
    and w': "w' = w2\<lparr>w_fs := fs'\<rparr>"
    using run_Inr_cases [OF assms] by metis
  note loop = detail_loop_0_ok [OF d]
  have "length bs \<le> 6" using divide_chunks_by_time_length [OF bs] by simp
  moreover have "bs \<noteq> []" using divide_chunks_by_time_nonempty [OF bs] .
  ultimately show ?thesis using loop w' by (simp add: chain_calls_paced Suc_le_eq)
qed

text \<open>C19 (\<open>__init__\<close>, every branch): an empty video id raises ValueError, a missing
  \<open>SUMMARY_STORE_DIR\<close> raises KeyError, a failing \<open>setup_llm_from_environment()\<close>
  raises its error; otherwise the object has the watch URL, no chunks, the map-reduce
  chain type, and its summary file lies directly in the configured directory when the id
  has no slash.\<close>

theorem YoutubeSummarize_init_branches:
  "(v = [] \<longrightarrow> YoutubeSummarize_init sv environ v dbg = Inl (ValueError ''video id is invalid.'')) \<and>
   (v \<noteq> [] \<longrightarrow> environ ''SUMMARY_STORE_DIR'' = None \<longrightarrow>
      YoutubeSummarize_init sv environ v dbg = Inl (KeyError ''SUMMARY_STORE_DIR'')) \<and>
   (v \<noteq> [] \<longrightarrow> environ ''SUMMARY_STORE_DIR'' = Some d \<longrightarrow> sv_setup_llm sv environ = Inl e \<longrightarrow>
      YoutubeSummarize_init sv environ v dbg = Inl e) \<and>
   (v \<noteq> [] \<longrightarrow> environ ''SUMMARY_STORE_DIR'' = Some d \<longrightarrow> sv_setup_llm sv environ = Inr () \<longrightarrow>
      (\<exists>ys. YoutubeSummarize_init sv environ v dbg = Inr ys \<and>
            url ys = ''https://www.youtube.com/watch?v='' @ v \<and> chunks ys = [] \<and>
            chain_type ys = ''map_reduce'' \<and> summary_file ys = d @ ''/'' @ v \<and>
            (d \<noteq> [] \<longrightarrow> last d \<noteq> CHR ''/'' \<longrightarrow> CHR ''/'' \<notin> set v \<longrightarrow> py_dirname (summary_file ys) = d)))"
  by (auto simp: YoutubeSummarize_init_def py_dirname_summary_file)

text \<open>C20 (\<open>prepare\<close>): preparing succeeds exactly when the title and a transcript in one
  of the languages ja, en, en-US are available and the transcript is not empty; it then sets
  the title and the chunks of \<open>prepare_chunks\<close>. A missing transcript's exception propagates,
  and an empty transcript is InvalidInputError.\<close>

theorem prepare_behaviour:
  "(prepare sv ys = Inr ys' \<longleftrightarrow>
     (\<exists>t trs cs. sv_title sv (url ys) = Inr t \<and> sv_transcript sv (vid ys) [''ja'', ''en'', ''en-US''] = Inr trs \<and>
                trs \<noteq> [] \<and> prepare_chunks (vid ys) trs = Inr cs \<and> ys' = ys\<lparr>title := t, chunks := cs\<rparr>)) \<and>
   (sv_title sv (url ys) = Inr t \<longrightarrow> sv_transcript sv (vid ys) [''ja'', ''en'', ''en-US''] = Inl e \<longrightarrow>
      prepare sv ys = Inl e) \<and>
   (sv_title sv (url ys) = Inr t \<longrightarrow> sv_transcript sv (vid ys) [''ja'', ''en'', ''en-US''] = Inr [] \<longrightarrow>
      prepare sv ys = Inl InvalidInputError)"
  by (auto simp: prepare_def transcript_languages_def split: sum.splits)

text \<open>C21 (type): \<open>__init__\<close> builds a well-formed object for the configured store
  directory (non-empty id, watch URL, summary file directly in the directory, map_reduce,
  no chunks), and \<open>prepare\<close> keeps it well-formed with the same id, its chunks, of which
  there is at least one, being numbered \<open>vid-0, vid-1, ...\<close>.\<close>

theorem ys_wf_preserved:
  "(YoutubeSummarize_init sv environ v dbg = Inr ys \<longrightarrow> environ ''SUMMARY_STORE_DIR'' = Some dir \<longrightarrow>
      ys_wf dir ys \<and> chunks ys = []) \<and>
   (ys_wf dir ys \<longrightarrow> prepare sv ys = Inr ys' \<longrightarrow> ys_wf dir ys' \<and> vid ys' = vid ys \<and> chunks ys' \<noteq> [])"
proof (rule conjI; intro impI)
  assume "YoutubeSummarize_init sv environ v dbg = Inr ys" "environ ''SUMMARY_STORE_DIR'' = Some dir"
  then show "ys_wf dir ys \<and> chunks ys = []"
    by (auto simp: YoutubeSummarize_init_def ys_wf_def split: if_splits sum.splits)
next
  assume wf: "ys_wf dir ys" and p: "prepare sv ys = Inr ys'"
  obtain t ts cs where c: "prepare_chunks (vid ys) ts = Inr cs" and ys': "ys' = ys\<lparr>title := t, chunks := cs\<rparr>"
    using prepare_Inr [OF p] by metis
  have "cs \<noteq> []"
    using c chunk_groups_not_Nil [of "[]"] by (auto simp: prepare_chunks_def divide_transcriptions_into_chunks_Inr)
  then show "ys_wf dir ys' \<and> vid ys' = vid ys \<and> chunks ys' \<noteq> []"
    using wf prepare_chunks_ids [OF c] ys' by (simp add: ys_wf_def)
qed

text \<open>C30 (error, short video): for a transcript whose chunks end before five seconds,
  a run whose concise call succeeds then raises ZeroDivisionError in the bucketing: it has
  made exactly the concise call, written nothing and made no bucket call.\<close>

theorem run_short_video:
  assumes "chunks ys \<noteq> []" "0 \<le> tr_start (last (chunks ys)) + tr_duration (last (chunks ys))"
    and "tr_start (last (chunks ys)) + tr_duration (last (chunks ys)) < 5"
    and "sv_chain sv (summarize_chain_config ys) (chain_calls (w_log w)) (map tr_text (chunks ys)) = Inr c"
  shows "run sv ys w = (Inl ZeroDivisionError, concise_world ys w)"
proof -
  have "divide_chunks_by_time (chunks ys) 5 = Inl ZeroDivisionError"
    using assms(1-3) by (intro divide_chunks_by_time_short) simp_all
  then show ?thesis using assms(4) by (simp add: run_def chain_call_eq)
qed

subsection \<open>Witnesses\<close>

theorem run_fail_fast_witness: "fs_files empty_fs = fs_files (w_fs example_world)"
  using run_fail_fast [OF example_run_fails] by simp

theorem run_success_witness:
  "\<exists>bs. divide_chunks_by_time (chunks example_ys) 5 = Inr bs \<and> length bs = 1"
  using run_success [OF example_run] by auto

theorem run_trace_witness:
  "\<exists>bs. divide_chunks_by_time (chunks example_ys) 5 = Inr bs \<and>
        [ChainCall [''hi''], ChainCall [''hi'']] = ChainCall [''hi''] # paced_calls (map (map tr_text) bs)"
  using run_trace [OF example_run] by (simp add: example_world_def example_ys_def)

theorem run_fail_trace_witness:
  "\<exists>bs k. divide_chunks_by_time (chunks example_ys) 5 = Inr bs \<and> k < length bs \<and>
     sv_chain failing_services (summarize_chain_config example_ys) (Suc k) (map tr_text (bs ! k)) =
       Inl (ChainInvocationError ''rate'') \<and>
     [ChainCall [''hi''], ChainCall [''hi'']] = ChainCall [''hi''] # paced_calls (bucket_docs (take (Suc k) bs))"
proof -
  have c: "sv_chain failing_services (summarize_chain_config example_ys) 0 [''hi''] = Inr ''S''"
    by (simp add: failing_services_def example_services_def)
  have b: "divide_chunks_by_time (chunks example_ys) 5 = Inr [chunks example_ys]"
    by (simp add: example_ys_def bucket_eval)
  have "fst (save_summary ''d/v'' s empty_fs) = Inr ()" for s
    by (simp add: save_summary_def example_paths py_isdir_def py_makedirs_def py_exists_def
                  py_write_file_def empty_fs_def)
  then have sv: "save_summary ''d/v'' s empty_fs \<noteq> (Inl e, fs')" for s e fs'
    by (metis fst_conv sum.distinct(1))
  show ?thesis
    using run_fail_trace [OF example_run_fails] c b sv
    by (simp add: example_world_def example_ys_def)
qed

theorem run_call_bounds_witness:
  "chain_calls [ChainCall [''hi''], ChainCall [''hi'']] = 2"
  using run_call_bounds [OF example_run] by (simp add: example_world_def)

theorem YoutubeSummarize_init_branches_witness:
  "\<exists>ys. YoutubeSummarize_init example_services [''SUMMARY_STORE_DIR'' \<mapsto> ''d''] ''v'' False = Inr ys \<and>
        py_dirname (summary_file ys) = ''d''"
  using YoutubeSummarize_init_branches [of "''v''" example_services "[''SUMMARY_STORE_DIR'' \<mapsto> ''d'']" False "''d''"]
  by (auto simp: example_services_def)

theorem prepare_behaviour_witness:
  "\<exists>ys'. prepare example_services example_ys = Inr ys'"
  using prepare_behaviour [of example_services example_ys] example_prepare_chunks
  by (auto simp: example_services_def example_ys_def)

theorem ys_wf_preserved_witness:
  "ys_wf ''d'' \<lparr>vid = ''v'', debug = False, url = ''https://www.youtube.com/watch?v=v'', title = [],
                summary_file = ''d/v'', chain_type = ''map_reduce'', chunks = []\<rparr>"
  using ys_wf_preserved [of example_services "[''SUMMARY_STORE_DIR'' \<mapsto> ''d'']" "''v''" False]
  by (simp add: YoutubeSummarize_init_def example_services_def)

theorem run_short_video_witness:
  "run example_services
       (example_ys\<lparr>chunks := [\<lparr>tr_text = ''hi'', tr_start = 0, tr_duration = 3, chunk_id = ''v-0''\<rparr>]\<rparr>)
       example_world =
   (Inl ZeroDivisionError, \<lparr>w_fs = empty_fs, w_log = [ChainCall [''hi'']]\<rparr>)"
  using run_short_video [of "example_ys\<lparr>chunks := [\<lparr>tr_text = ''hi'', tr_start = 0, tr_duration = 3, chunk_id = ''v-0''\<rparr>]\<rparr>"
                            example_services example_world "''S''"]
  by (simp add: example_services_def example_world_def example_ys_def)

end
