(* ===== verification/QA.thy ===== *)
theory QA
  imports Summarize
begin

text \<open>
  The command line of \<open>src/yts/__main__.py\<close>: the QA session (\<open>qa\<close>, lines 15--36), the
  summary command (\<open>summary\<close>, lines 39--47) and the dispatch (lines 50--63). The
  question-answering backend \<open>YoutubeQA\<close> (\<open>yts/qa.py\<close>, not under \<open>src/\<close>) is a
  record of operations over an arbitrary state type \<open>'q\<close>: construction,
  \<open>prepare_query\<close>, \<open>run_query\<close> (which may fail) and \<open>get_source\<close>, whose tuples are
  already the \<open>str()\<close> of score, id, time and source. Standard input is a list of lines
  (\<open>input()\<close> at its end raises EOFError), standard output a string; \<open>print\<close> appends
  its text and the line end. \<open>argparse\<close> itself is not modelled: the arguments are a
  record, with the defaults of lines 9--10 and 52--56.

  The session follows the state machine of the spec (section 4.5): \<open>qa_step\<close> is its
  step relation over the events ``a line was read'' and ``an answer was printed'', and
  \<open>qa_loop\<close> is shown to refine it.
\<close>

abbreviation newline :: string where "newline \<equiv> [CHR 0x0A]"

text \<open>Lines 9--10: the defaults.\<close>

definition DEFAULT_VIDEO_ID :: string where
  "DEFAULT_VIDEO_ID = ''cEynsEWpXdA''"

definition DEFAULT_REF_SOURCE :: int where
  "DEFAULT_REF_SOURCE = 3"

record Args =
  args_vid :: string
  args_source :: int
  args_detail :: bool
  args_debug :: bool
  args_summary :: bool

definition default_args :: Args where
  "default_args =
     \<lparr>args_vid = DEFAULT_VIDEO_ID, args_source = DEFAULT_REF_SOURCE, args_detail = False,
      args_debug = False, args_summary = False\<rparr>"

record 'q qa_backend =
  qb_init :: "string \<Rightarrow> int \<Rightarrow> bool \<Rightarrow> bool \<Rightarrow> 'q result"
  qb_prepare_query :: "'q \<Rightarrow> 'q result"
  qb_run_query :: "'q \<Rightarrow> string \<Rightarrow> (string \<times> 'q) result"
  qb_get_source :: "'q \<Rightarrow> (string \<times> string \<times> string \<times> string) list"

text \<open>Line 35: one source line, \<open>print(f"--- {time} ({id} [{score}]) ---\n {source}")\<close>.\<close>

definition format_source :: "string \<times> string \<times> string \<times> string \<Rightarrow> string" where
  "format_source src =
     (case src of (score, cid, time, source) \<Rightarrow>
        ''--- '' @ time @ '' ('' @ cid @ '' ['' @ score @ '']) ---'' @ newline @ '' '' @ source @ newline)"

text \<open>Lines 26--36: what one answered query adds to the output.\<close>

definition answer_block :: "'q qa_backend \<Rightarrow> bool \<Rightarrow> string \<Rightarrow> 'q \<Rightarrow> string" where
  "answer_block qb detail answer q' =
     ''Query: '' @ ''Answer: '' @ answer @ newline @ newline @
     (if detail then concat (map format_source (qb_get_source qb q')) @ newline else [])"

text \<open>Lines 25--36: the loop. It returns the outcome, the backend's state, the unread input
  and the output.\<close>

fun qa_loop ::
  "'q qa_backend \<Rightarrow> bool \<Rightarrow> 'q \<Rightarrow> string list \<Rightarrow> string \<Rightarrow> unit result \<times> 'q \<times> string list \<times> string" where
  "qa_loop qb detail q [] out = (Inl EOFError, q, [], out @ ''Query: '')"
| "qa_loop qb detail q (l # ls) out =
     (let out1 = out @ ''Query: ''; query = py_strip l
      in if query = [] then (Inr (), q, ls, out1)
         else
           (let out2 = out1 @ ''Answer: ''
            in case qb_run_query qb q query of
                 Inl e \<Rightarrow> (Inl e, q, ls, out2)
               | Inr (answer, q') \<Rightarrow>
                   (let out3 = out2 @ answer @ newline @ newline;
                        out4 = (if detail then out3 @ concat (map format_source (qb_get_source qb q')) @ newline
                                else out3)
                    in qa_loop qb detail q' ls out4)))"

text \<open>Line 23: \<open>str()\<close> of the decoded \<open>concise\<close> value (a string is itself; other values
  are printed by their \<open>repr\<close>, with the escapes of \<open>repr\<close> for a byte string).\<close>

definition py_repr_char :: "char \<Rightarrow> char \<Rightarrow> string" where
  "py_repr_char qc c =
     (if c = backslash_char then [backslash_char, backslash_char]
      else if c = qc then [backslash_char, qc]
      else if c = CHR 0x0A then [backslash_char, CHR ''n'']
      else if c = CHR 0x0D then [backslash_char, CHR ''r'']
      else if c = CHR 0x09 then [backslash_char, CHR ''t'']
      else if of_char c < (32::nat) \<or> of_char c = (127::nat)
      then [backslash_char, CHR ''x'', hex_digit (of_char c div 16), hex_digit (of_char c mod 16)]
      else [c])"

definition py_repr_str :: "string \<Rightarrow> string" where
  "py_repr_str s =
     (let qc = (if CHR 0x27 \<in> set s \<and> quote_char \<notin> set s then quote_char else CHR 0x27)
      in [qc] @ concat (map (py_repr_char qc) s) @ [qc])"

text \<open>\<open>json.load\<close> builds a dict: a repeated key keeps the place of its first occurrence
  and the value of its last.\<close>

definition py_dict_items :: "('k \<times> 'v) list \<Rightarrow> ('k \<times> 'v) list" where
  "py_dict_items kvs = map (\<lambda>k. (k, the (map_of (rev kvs) k))) (remdups (map fst kvs))"

fun py_repr_json :: "json \<Rightarrow> string" where
  "py_repr_json JNull = ''None''"
| "py_repr_json (JBool b) = (if b then ''True'' else ''False'')"
| "py_repr_json (JString s) = py_repr_str s"
| "py_repr_json (JArray vs) = ''['' @ py_join '', '' (map py_repr_json vs) @ '']''"
| "py_repr_json (JObject kvs) =
     ''{'' @ py_join '', '' (map (\<lambda>(k, r). py_repr_str k @ '': '' @ r)
                               (py_dict_items (map (\<lambda>(k, v). (k, py_repr_json v)) kvs))) @ ''}''"

definition py_str_json :: "json \<Rightarrow> string" where
  "py_str_json j = (case j of JString s \<Rightarrow> s | _ \<Rightarrow> py_repr_json j)"

text \<open>Line 23: the hint printed before the loop.\<close>

definition hint_text :: "json option \<Rightarrow> string" where
  "hint_text hint = (case hint of None \<Rightarrow> [] | Some v \<Rightarrow> ''(Summary) '' @ py_str_json v @ newline @ newline)"

text \<open>Lines 15--36: \<open>qa\<close>. The backend is built and prepared, the stored concise summary
  is printed if there is one, then the loop runs.\<close>

definition qa ::
  "'q qa_backend \<Rightarrow> (string \<rightharpoonup> string) \<Rightarrow> Args \<Rightarrow> fsys \<Rightarrow> string list \<Rightarrow> unit result \<times> string list \<times> string" where
  "qa qb environ args fs lines =
     (case qb_init qb (args_vid args) (args_source args) (args_detail args) (args_debug args) of
        Inl e \<Rightarrow> (Inl e, lines, [])
      | Inr yqa \<Rightarrow>
          (case qb_prepare_query qb yqa of
             Inl e \<Rightarrow> (Inl e, lines, [])
           | Inr yqa1 \<Rightarrow>
               (case environ ''SUMMARY_STORE_DIR'' of
                  None \<Rightarrow> (Inl (KeyError ''SUMMARY_STORE_DIR''), lines, [])
                | Some d \<Rightarrow>
                    (case read_concise (d @ ''/'' @ args_vid args) fs of
                       Inl e \<Rightarrow> (Inl e, lines, [])
                     | Inr hint \<Rightarrow>
                         (let (r, yqa2, rest, out) = qa_loop qb (args_detail args) yqa1 lines (hint_text hint)
                          in (r, rest, out))))))"

text \<open>Lines 44--47: what \<open>summary\<close> prints; the headers are UTF-8.\<close>

definition DETAIL_HEADER :: string where
  "DETAIL_HEADER = [CHR 0x5B, CHR 0xE8, CHR 0xA9, CHR 0xB3, CHR 0xE7, CHR 0xB4, CHR 0xB0, CHR 0xE3,
                    CHR 0x81, CHR 0xAA, CHR 0xE8, CHR 0xA6, CHR 0x81, CHR 0xE7, CHR 0xB4, CHR 0x84, CHR 0x5D]"

definition BULLET :: string where
  "BULLET = [CHR 0xE3, CHR 0x83, CHR 0xBB]"

definition CONCISE_HEADER :: string where
  "CONCISE_HEADER = [CHR 0x5B, CHR 0xE7, CHR 0xB0, CHR 0xA1, CHR 0xE6, CHR 0xBD, CHR 0x94, CHR 0xE3,
                     CHR 0x81, CHR 0xAA, CHR 0xE8, CHR 0xA6, CHR 0x81, CHR 0xE7, CHR 0xB4, CHR 0x84, CHR 0x5D]"

definition summary_output :: "SummaryRecord \<Rightarrow> string" where
  "summary_output s =
     py_print [DETAIL_HEADER] @
     concat (map (\<lambda>d. py_print [BULLET @ d @ newline]) (sum_detail s)) @
     py_print [newline, CONCISE_HEADER @ newline, sum_concise s]"

text \<open>Lines 39--47: \<open>summary\<close>.\<close>

definition summary_cmd ::
  "services \<Rightarrow> (string \<rightharpoonup> string) \<Rightarrow> Args \<Rightarrow> world \<Rightarrow> unit result \<times> world \<times> string" where
  "summary_cmd sv environ args w =
     (case YoutubeSummarize_init sv environ (args_vid args) (args_debug args) of
        Inl e \<Rightarrow> (Inl e, w, [])
      | Inr ys \<Rightarrow>
          (case prepare sv ys of
             Inl e \<Rightarrow> (Inl e, w, [])
           | Inr ys' \<Rightarrow>
               (case run sv ys' w of
                  (Inl e, w') \<Rightarrow> (Inl e, w', [])
                | (Inr s, w') \<Rightarrow> (Inr (), w', summary_output s))))"

text \<open>Lines 59--63: the dispatch. The two tests are separate \<open>if\<close>s, but \<open>args.summary\<close> is
  a boolean, so exactly one command runs. The result records which one, with its effects.\<close>

datatype 'q outcome =
    RanQA "unit result" "string list" string
  | RanSummary "unit result" world string

definition main ::
  "'q qa_backend \<Rightarrow> services \<Rightarrow> (string \<rightharpoonup> string) \<Rightarrow> Args \<Rightarrow> world \<Rightarrow> string list \<Rightarrow> 'q outcome" where
  "main qb sv environ args w lines =
     (if args_summary args = False
      then (case qa qb environ args (w_fs w) lines of (r, rest, out) \<Rightarrow> RanQA r rest out)
      else (case summary_cmd sv environ args w of (r, w', out) \<Rightarrow> RanSummary r w' out))"

subsection \<open>The session as a state machine\<close>

text \<open>Specification (section 4.5): awaiting a query, an empty line terminates, a non-empty
  one is answered and the session awaits the next query.\<close>

datatype qa_state = AwaitingQuery | Answering string | Terminated

datatype qa_event = ReadLine string | AnswerPrinted

inductive qa_step :: "qa_state \<Rightarrow> qa_event \<Rightarrow> qa_state \<Rightarrow> bool" where
  blank: "py_strip l = [] \<Longrightarrow> qa_step AwaitingQuery (ReadLine l) Terminated"
| query: "py_strip l \<noteq> [] \<Longrightarrow> qa_step AwaitingQuery (ReadLine l) (Answering (py_strip l))"
| answered: "qa_step (Answering s) AnswerPrinted AwaitingQuery"

inductive qa_steps :: "qa_state \<Rightarrow> qa_event list \<Rightarrow> qa_state \<Rightarrow> bool" where
  refl: "qa_steps s [] s"
| step: "qa_step s e t \<Longrightarrow> qa_steps t es u \<Longrightarrow> qa_steps s (e # es) u"

text \<open>The events of a session that reads the given lines, every query being answered.\<close>

fun session_events :: "string list \<Rightarrow> qa_event list" where
  "session_events [] = []"
| "session_events (l # ls) =
     (if py_strip l = [] then [ReadLine l] else ReadLine l # AnswerPrinted # session_events ls)"

code_pred qa_step .

text \<open>A backend for the examples: it answers each query by echoing it, keeps no state,
  and cites one source.\<close>

definition echo_backend :: "nat qa_backend" where
  "echo_backend =
     \<lparr>qb_init = (\<lambda>v n d g. Inr 0), qb_prepare_query = Inr,
      qb_run_query = (\<lambda>q s. Inr (s, q)),
      qb_get_source = (\<lambda>q. [(''0.9'', ''v-0'', ''00:00:01'', ''hi'')])\<rparr>"

definition recording_backend :: "string list qa_backend" where
  "recording_backend =
     \<lparr>qb_init = (\<lambda>v n d g. Inr []), qb_prepare_query = Inr,
      qb_run_query = (\<lambda>qs s. Inr (s, qs @ [s])), qb_get_source = (\<lambda>qs. [])\<rparr>"

definition example_lines :: "string list" where
  "example_lines = [''hi '', ''  '', ''ignored'']"

definition example_env :: "string \<rightharpoonup> string" where
  "example_env = [''SUMMARY_STORE_DIR'' \<mapsto> ''d'']"

definition summary_args :: Args where
  "summary_args = default_args\<lparr>args_vid := ''v'', args_summary := True\<rparr>"

subsection \<open>Lemmas: the loop\<close>

abbreviation blank :: "string \<Rightarrow> bool" where
  "blank l \<equiv> py_strip l = []"

inductive_cases qa_step_AwaitingE [elim!]: "qa_step AwaitingQuery e t"
inductive_cases qa_step_AnsweringE [elim!]: "qa_step (Answering x) e t"
inductive_cases qa_step_TerminatedE [elim!]: "qa_step Terminated e t"
inductive_cases qa_steps_NilE [elim!]: "qa_steps s [] t"
inductive_cases qa_steps_ConsE [elim!]: "qa_steps s (e # es) t"

lemma qa_loop_prefix:
  "qa_loop qb d q ls (out @ tail) =
   (case qa_loop qb d q ls tail of (r, q', rest, ob) \<Rightarrow> (r, q', rest, out @ ob))"
  by (induction ls arbitrary: q tail) (auto simp: Let_def split: sum.splits)

lemma qa_loop_from_Nil:
  "qa_loop qb d q ls out = (case qa_loop qb d q ls [] of (r, q', rest, ob) \<Rightarrow> (r, q', rest, out @ ob))"
  using qa_loop_prefix [of qb d q ls out "[]"] by simp

lemma qa_loop_answer:
  "\<not> blank l \<Longrightarrow> qb_run_query qb q (py_strip l) = Inr (a, q') \<Longrightarrow>
   qa_loop qb d q (l # ls) out = qa_loop qb d q' ls (out @ answer_block qb d a q')"
  by (simp add: answer_block_def Let_def)

lemma qa_steps_Terminated: "qa_steps Terminated es u \<Longrightarrow> es = [] \<and> u = Terminated"
  by (cases es) auto

lemma qa_steps_to_Terminated:
  assumes "qa_steps s es t" "t = Terminated" "s \<noteq> Terminated"
  shows "\<exists>ls. es = (case s of Answering _ \<Rightarrow> [AnswerPrinted] | _ \<Rightarrow> []) @ session_events ls \<and>
              ls \<noteq> [] \<and> blank (last ls) \<and> (\<forall>l\<in>set (butlast ls). \<not> blank l)"
  using assms
proof (induction rule: qa_steps.induct)
  case (step s e t es u)
  from step.hyps(1) show ?case
  proof cases
    case (blank l)
    with step.hyps(2) step.prems(1) have "es = []" using qa_steps_Terminated by blast
    with blank show ?thesis by (intro exI [of _ "[l]"]) simp
  next
    case (query l)
    with step.IH step.prems(1) obtain ls where
      ls: "es = AnswerPrinted # session_events ls" "ls \<noteq> []" "blank (last ls)"
          "\<forall>l\<in>set (butlast ls). \<not> blank l"
      by auto
    with query show ?thesis by (intro exI [of _ "l # ls"]) simp
  next
    case (answered x)
    with step.IH step.prems(1) show ?thesis by auto
  qed
qed simp

lemma qa_loop_total:
  assumes total: "\<And>q s. \<exists>a q'. qb_run_query qb q s = Inr (a, q')"
  shows "fst (qa_loop qb d q ls out) = (if \<exists>l\<in>set ls. blank l then Inr () else Inl EOFError) \<and>
         fst (snd (snd (qa_loop qb d q ls out))) = drop (Suc (length (takeWhile (\<lambda>l. \<not> blank l) ls))) ls"
proof (induction ls arbitrary: q out)
  case (Cons l ls)
  show ?case
  proof (cases "blank l")
    case False
    obtain a q' where r: "qb_run_query qb q (py_strip l) = Inr (a, q')" using total by blast
    have "qa_loop qb d q (l # ls) out = qa_loop qb d q' ls (out @ answer_block qb d a q')"
      by (rule qa_loop_answer [OF False r])
    with False Cons.IH show ?thesis by simp
  qed simp
qed simp

lemma qa_steps_answer:
  "\<not> blank l \<Longrightarrow> qa_steps AwaitingQuery es t \<Longrightarrow> qa_steps AwaitingQuery (session_events [l] @ es) t"
  by (auto intro: qa_steps.step qa_step.intros)

lemma session_events_append:
  "\<forall>l\<in>set xs. \<not> blank l \<Longrightarrow> session_events (xs @ ys) = session_events xs @ session_events ys"
  by (induction xs) auto

lemma summary_cmd_Inr:
  assumes "summary_cmd sv environ args w = (Inr (), w', ob)"
  obtains dir ys' s where "environ ''SUMMARY_STORE_DIR'' = Some dir"
    "summary_file ys' = dir @ ''/'' @ args_vid args" "url ys' = ''https://www.youtube.com/watch?v='' @ args_vid args"
    "run sv ys' w = (Inr s, w')" "ob = summary_output s"
proof -
  obtain ys where i: "YoutubeSummarize_init sv environ (args_vid args) (args_debug args) = Inr ys"
    using assms by (auto simp: summary_cmd_def split: sum.splits)
  then obtain dir where dir: "environ ''SUMMARY_STORE_DIR'' = Some dir"
    and f: "summary_file ys = dir @ ''/'' @ args_vid args"
    and u: "url ys = ''https://www.youtube.com/watch?v='' @ args_vid args"
    by (auto simp: YoutubeSummarize_init_def split: if_splits option.splits sum.splits)
  obtain ys' where p: "prepare sv ys = Inr ys'"
    using assms i by (auto simp: summary_cmd_def split: sum.splits)
  obtain s where "run sv ys' w = (Inr s, w')" "ob = summary_output s"
    using assms i p by (auto simp: summary_cmd_def split: sum.splits prod.splits)
  with dir f u prepare_keeps [OF p] show ?thesis by (intro that) auto
qed

lemma qa_hint:
  assumes "qb_init qb (args_vid args) (args_source args) (args_detail args) (args_debug args) = Inr y"
    and "qb_prepare_query qb y = Inr y1" and "environ ''SUMMARY_STORE_DIR'' = Some dir"
    and "read_concise (dir @ ''/'' @ args_vid args) fs = Inr h"
  shows "qa qb environ args fs lines =
         (case qa_loop qb (args_detail args) y1 lines [] of (r, q', rest, ob) \<Rightarrow> (r, rest, hint_text h @ ob))"
  using assms qa_loop_from_Nil [of qb "args_detail args" y1 lines "hint_text h"]
  by (simp add: qa_def split: prod.splits)

lemma main_RanSummary:
  "main qb sv environ args w lines = RanSummary r w' ob \<Longrightarrow>
   args_summary args \<and> summary_cmd sv environ args w = (r, w', ob)"
  by (auto simp: main_def split: if_splits prod.splits)

lemma example_strips: "py_strip ''hi '' = ''hi''" "py_strip ''  '' = []" "py_strip ''hi'' = ''hi''"
  "py_strip [] = []"
  by (simp_all add: py_eval)

lemma echo_total: "\<exists>a q'. qb_run_query echo_backend q s = Inr (a, q')"
  by (simp add: echo_backend_def)

lemma example_summary_cmd:
  "\<exists>w' ob. summary_cmd example_services example_env summary_args example_world = (Inr (), w', ob)"
  by (simp add: summary_cmd_def example_env_def summary_args_def default_args_def
                YoutubeSummarize_init_def prepare_def example_prepare_chunks
                run_def example_services_def example_world_def chain_call_eq
                bucket_eval save_summary_def example_paths py_isdir_def py_makedirs_def py_exists_def
                py_write_file_def empty_fs_def)

subsection \<open>Properties of the QA session\<close>

text \<open>C22 (termination): with a backend whose \<open>run_query\<close> never raises, the loop ends
  normally exactly when the input holds a blank line (after \<open>strip\<close>), having read every
  line up to and including the first one; otherwise it reads all input and ends with
  EOFError.\<close>

theorem qa_loop_ends:
  assumes "\<And>q s. \<exists>a q'. qb_run_query qb q s = Inr (a, q')"
  shows "fst (qa_loop qb d q ls out) = (if \<exists>l\<in>set ls. blank l then Inr () else Inl EOFError) \<and>
         fst (snd (snd (qa_loop qb d q ls out))) = drop (Suc (length (takeWhile (\<lambda>l. \<not> blank l) ls))) ls"
  using assms by (rule qa_loop_total)

text \<open>C23 (output): with a backend that keeps no state, the session prints, for every
  line before the first blank one, the prompt, \<open>Answer: \<close>, the answer to the stripped
  line, a blank line and (in detail mode) the sources; and then one last prompt.\<close>

theorem qa_loop_output:
  assumes "\<And>s. qb_run_query qb q s = Inr (ans s, q)"
  shows "snd (snd (snd (qa_loop qb d q ls out))) =
         out @ concat (map (\<lambda>l. answer_block qb d (ans (py_strip l)) q) (takeWhile (\<lambda>l. \<not> blank l) ls)) @
         ''Query: ''"
proof (induction ls arbitrary: out)
  case (Cons l ls)
  show ?case
  proof (cases "blank l")
    case False
    have "qa_loop qb d q (l # ls) out = qa_loop qb d q ls (out @ answer_block qb d (ans (py_strip l)) q)"
      by (rule qa_loop_answer [OF False assms])
    with False Cons.IH show ?thesis by simp
  qed simp
qed simp

text \<open>C24 (refinement): the loop implements the session machine of the spec. With a
  backend that never raises, the lines it reads drive \<open>qa_step\<close> from AwaitingQuery to
  Terminated when it returns normally, and back to AwaitingQuery (every query answered)
  when the input runs out.\<close>

theorem qa_loop_refines:
  assumes total: "\<And>q s. \<exists>a q'. qb_run_query qb q s = Inr (a, q')"
    and "qa_loop qb d q ls out = (r, q', rest, ob)"
  shows "\<exists>consumed. ls = consumed @ rest \<and>
           (r = Inr () \<and> qa_steps AwaitingQuery (session_events consumed) Terminated \<or>
            r = Inl EOFError \<and> rest = [] \<and> qa_steps AwaitingQuery (session_events consumed) AwaitingQuery)"
  using assms(2)
proof (induction ls arbitrary: q out)
  case Nil
  then show ?case by (auto intro: qa_steps.refl)
next
  case (Cons l ls)
  show ?case
  proof (cases "blank l")
    case True
    with Cons.prems show ?thesis
      by (intro exI [of _ "[l]"]) (auto intro: qa_steps.intros qa_step.intros)
  next
    case False
    obtain a q'' where rq: "qb_run_query qb q (py_strip l) = Inr (a, q'')" using total by blast
    have "qa_loop qb d q'' ls (out @ answer_block qb d a q'') = (r, q', rest, ob)"
      using Cons.prems qa_loop_answer [OF False rq] by simp
    then obtain c where "ls = c @ rest"
      "r = Inr () \<and> qa_steps AwaitingQuery (session_events c) Terminated \<or>
       r = Inl EOFError \<and> rest = [] \<and> qa_steps AwaitingQuery (session_events c) AwaitingQuery"
      using Cons.IH by blast
    with False show ?thesis
      by (intro exI [of _ "l # c"]) (auto dest: qa_steps_answer [OF False])
  qed
qed

text \<open>C25 (completeness of the refinement): every run of the session machine from
  AwaitingQuery to Terminated is the event sequence of some input lines, and the loop,
  given those lines followed by anything, ends normally having read exactly them.\<close>

theorem qa_session_complete:
  assumes "qa_steps AwaitingQuery es Terminated"
    and total: "\<And>q s. \<exists>a q'. qb_run_query qb q s = Inr (a, q')"
  shows "\<exists>ls. es = session_events ls \<and>
           (\<forall>more. fst (qa_loop qb d q (ls @ more) out) = Inr () \<and>
                   fst (snd (snd (qa_loop qb d q (ls @ more) out))) = more)"
proof -
  obtain ls where es: "es = session_events ls" and ne: "ls \<noteq> []" and b: "blank (last ls)"
    and nb: "\<forall>l\<in>set (butlast ls). \<not> blank l"
    using qa_steps_to_Terminated [OF assms(1)] by auto
  have split: "ls = butlast ls @ [last ls]" using ne by simp
  have tw: "takeWhile (\<lambda>l. \<not> blank l) (ls @ more) = butlast ls" for more
    using nb b by (subst split) (simp add: takeWhile_append)
  have ex: "\<exists>l\<in>set (ls @ more). blank l" for more
    using b ne by (metis Un_iff last_in_set set_append)
  have "drop (Suc (length (butlast ls))) (ls @ more) = more" for more
    using ne by simp
  then show ?thesis
    using es qa_loop_total [OF total, of d q "_ @ _" out] tw ex by auto
qed

text \<open>C26 (the steps before the loop): a failing backend constructor or
  \<open>prepare_query\<close>, a missing \<open>SUMMARY_STORE_DIR\<close> (KeyError) or a failing read of the
  stored summary ends the command before any input is read or anything printed; with no
  stored summary the output is the loop's alone, with one it is preceded by
  \<open>(Summary) \<close>, the concise text and a blank line.\<close>

theorem qa_prelude_branches:
  "(qb_init qb (args_vid args) (args_source args) (args_detail args) (args_debug args) = Inl e \<longrightarrow>
      qa qb environ args fs lines = (Inl e, lines, [])) \<and>
   (qb_init qb (args_vid args) (args_source args) (args_detail args) (args_debug args) = Inr y \<longrightarrow>
      qb_prepare_query qb y = Inl e \<longrightarrow> qa qb environ args fs lines = (Inl e, lines, [])) \<and>
   (qb_init qb (args_vid args) (args_source args) (args_detail args) (args_debug args) = Inr y \<longrightarrow>
      qb_prepare_query qb y = Inr y1 \<longrightarrow> environ ''SUMMARY_STORE_DIR'' = None \<longrightarrow>
      qa qb environ args fs lines = (Inl (KeyError ''SUMMARY_STORE_DIR''), lines, [])) \<and>
   (qb_init qb (args_vid args) (args_source args) (args_detail args) (args_debug args) = Inr y \<longrightarrow>
      qb_prepare_query qb y = Inr y1 \<longrightarrow> environ ''SUMMARY_STORE_DIR'' = Some dir \<longrightarrow>
      read_concise (dir @ ''/'' @ args_vid args) fs = Inl e \<longrightarrow> qa qb environ args fs lines = (Inl e, lines, [])) \<and>
   (qb_init qb (args_vid args) (args_source args) (args_detail args) (args_debug args) = Inr y \<longrightarrow>
      qb_prepare_query qb y = Inr y1 \<longrightarrow> environ ''SUMMARY_STORE_DIR'' = Some dir \<longrightarrow>
      \<not> py_exists fs (dir @ ''/'' @ args_vid args) \<longrightarrow>
      qa qb environ args fs lines =
        (case qa_loop qb (args_detail args) y1 lines [] of (r, q', rest, ob) \<Rightarrow> (r, rest, ob))) \<and>
   (qb_init qb (args_vid args) (args_source args) (args_detail args) (args_debug args) = Inr y \<longrightarrow>
      qb_prepare_query qb y = Inr y1 \<longrightarrow> environ ''SUMMARY_STORE_DIR'' = Some dir \<longrightarrow>
      read_concise (dir @ ''/'' @ args_vid args) fs = Inr (Some v) \<longrightarrow>
      qa qb environ args fs lines =
        (case qa_loop qb (args_detail args) y1 lines [] of
           (r, q', rest, ob) \<Rightarrow> (r, rest, ''(Summary) '' @ py_str_json v @ newline @ newline @ ob)))"
proof (intro conjI impI)
  assume "qb_init qb (args_vid args) (args_source args) (args_detail args) (args_debug args) = Inr y"
    "qb_prepare_query qb y = Inr y1" "environ ''SUMMARY_STORE_DIR'' = Some dir"
  note h = qa_hint [where qb = qb and args = args and environ = environ, OF this]
  {
    assume "\<not> py_exists fs (dir @ ''/'' @ args_vid args)"
    then have "read_concise (dir @ ''/'' @ args_vid args) fs = Inr None" by (simp add: read_concise_def)
    from h [OF this] show "qa qb environ args fs lines =
        (case qa_loop qb (args_detail args) y1 lines [] of (r, q', rest, ob) \<Rightarrow> (r, rest, ob))"
      by (simp add: hint_text_def)
  next
    assume "read_concise (dir @ ''/'' @ args_vid args) fs = Inr (Some v)"
    from h [OF this] show "qa qb environ args fs lines =
        (case qa_loop qb (args_detail args) y1 lines [] of
           (r, q', rest, ob) \<Rightarrow> (r, rest, ''(Summary) '' @ py_str_json v @ newline @ newline @ ob))"
      by (simp add: hint_text_def split: prod.splits)
  }
qed (auto simp: qa_def)

text \<open>C27 (the summary command): when \<open>summary\<close> succeeds, \<open>SUMMARY_STORE_DIR\<close> is set,
  what it prints is the formatted record (detail header, one bullet per detail summary,
  concise header and text), that record is stored as JSON at
  \<open>SUMMARY_STORE_DIR/vid\<close>, and its URL is the video's watch URL.\<close>

theorem summary_cmd_output:
  assumes "summary_cmd sv environ args w = (Inr (), w', ob)"
  shows "\<exists>s dir. environ ''SUMMARY_STORE_DIR'' = Some dir \<and> ob = summary_output s \<and>
           fs_files (w_fs w') (dir @ ''/'' @ args_vid args) = Some (json_dumps (summary_json s)) \<and>
           sum_url s = ''https://www.youtube.com/watch?v='' @ args_vid args"
proof -
  obtain dir ys' s where dir: "environ ''SUMMARY_STORE_DIR'' = Some dir"
    and f: "summary_file ys' = dir @ ''/'' @ args_vid args"
    and u: "url ys' = ''https://www.youtube.com/watch?v='' @ args_vid args"
    and r: "run sv ys' w = (Inr s, w')" and ob: "ob = summary_output s"
    using summary_cmd_Inr [OF assms] by metis
  show ?thesis using run_stored [OF r] f u dir ob by auto
qed

text \<open>C28 (no partial output): when \<open>summary\<close> fails, at any step, it has printed nothing
  and no file has changed.\<close>

theorem summary_cmd_errors:
  assumes "summary_cmd sv environ args w = (Inl e, w', ob)"
  shows "ob = [] \<and> fs_files (w_fs w') = fs_files (w_fs w)"
  using assms
  by (auto simp: summary_cmd_def split: sum.splits prod.splits dest: run_Inl_files)

text \<open>C31 (ordering): the loop sends the backend exactly the stripped non-blank lines
  before the first blank one, in input order, one call each: a backend that records
  its queries ends with the input's queries appended to its record.\<close>

theorem qa_loop_queries:
  assumes "\<And>qs s. qb_run_query qb qs s = Inr (ans qs s, qs @ [s])"
  shows "fst (snd (qa_loop qb d qs ls out)) = qs @ map py_strip (takeWhile (\<lambda>l. \<not> blank l) ls)"
proof (induction ls arbitrary: qs out)
  case (Cons l ls)
  show ?case
  proof (cases "blank l")
    case False
    have "qa_loop qb d qs (l # ls) out =
          qa_loop qb d (qs @ [py_strip l]) ls (out @ answer_block qb d (ans qs (py_strip l)) (qs @ [py_strip l]))"
      by (rule qa_loop_answer [OF False assms])
    with False Cons.IH show ?thesis by simp
  qed simp
qed simp

subsection \<open>Witnesses\<close>

theorem qa_loop_ends_witness:
  "fst (qa_loop echo_backend False 0 example_lines []) = Inr () \<and>
   fst (snd (snd (qa_loop echo_backend False 0 example_lines []))) = [''ignored'']"
  using qa_loop_ends [OF echo_total, of False 0 example_lines "[]"]
  by (simp add: example_lines_def example_strips)

theorem qa_loop_output_witness:
  "snd (snd (snd (qa_loop echo_backend True 0 example_lines []))) =
   ''Query: Answer: hi'' @ newline @ newline @ ''--- 00:00:01 (v-0 [0.9]) ---'' @ newline @ '' hi'' @
   newline @ newline @ ''Query: ''"
  using qa_loop_output [of echo_backend 0 "\<lambda>s. s" True example_lines "[]"]
  by (simp add: echo_backend_def example_lines_def example_strips answer_block_def format_source_def)

theorem qa_loop_refines_witness:
  "\<exists>consumed. example_lines = consumed @ [''ignored''] \<and>
     qa_steps AwaitingQuery (session_events consumed) Terminated"
  using qa_loop_refines [OF echo_total, of False 0 example_lines "[]" "Inr ()" 0 "[''ignored'']"
          "''Query: Answer: hi'' @ newline @ newline @ ''Query: ''"]
  by (simp add: echo_backend_def example_lines_def example_strips answer_block_def)

theorem qa_session_complete_witness:
  "\<exists>ls. [ReadLine ''hi'', AnswerPrinted, ReadLine []] = session_events ls \<and>
     fst (qa_loop echo_backend False 0 (ls @ [''x'']) []) = Inr ()"
proof -
  have "qa_steps AwaitingQuery [ReadLine ''hi'', AnswerPrinted, ReadLine []] Terminated"
    by (auto intro!: qa_steps.intros qa_step.intros simp: example_strips)
  from qa_session_complete [OF this echo_total, of False 0 "[]"] show ?thesis by metis
qed

theorem qa_prelude_branches_witness:
  "qa echo_backend Map.empty default_args empty_fs example_lines =
   (Inl (KeyError ''SUMMARY_STORE_DIR''), example_lines, [])"
  using qa_prelude_branches [of echo_backend default_args _ Map.empty empty_fs example_lines 0 0]
  by (simp add: echo_backend_def)

theorem summary_cmd_output_witness:
  "\<exists>s. fs_files (w_fs (fst (snd (summary_cmd example_services example_env summary_args example_world))))
         ''d/v'' = Some (json_dumps (summary_json s))"
proof -
  obtain w' ob where e: "summary_cmd example_services example_env summary_args example_world = (Inr (), w', ob)"
    using example_summary_cmd by blast
  show ?thesis
    using summary_cmd_output [OF e] e by (auto simp: example_env_def summary_args_def)
qed

theorem summary_cmd_errors_witness:
  "fs_files (w_fs (fst (snd (summary_cmd example_services Map.empty summary_args example_world)))) =
   fs_files (w_fs example_world)"
  using summary_cmd_errors [of example_services Map.empty summary_args example_world
                               "KeyError ''SUMMARY_STORE_DIR''" example_world "[]"]
  by (simp add: summary_cmd_def YoutubeSummarize_init_def summary_args_def default_args_def)

theorem qa_loop_queries_witness:
  "fst (snd (qa_loop recording_backend False [] example_lines [])) = [''hi'']"
  using qa_loop_queries [of recording_backend "\<lambda>qs s. s" False "[]" example_lines "[]"]
  by (simp add: recording_backend_def example_lines_def example_strips)

end
