(* ===== verification/Spec2Isabelle.thy ===== *)
theory Spec2Isabelle
  imports QA
begin

text \<open>
  \<^bold>\<open>A verification development for youtube-script-search (src/yts).\<close>

  The program fetches a video's transcript, cuts it into overlapping text chunks
  (ChunkDivider), groups the chunks into time buckets (TimeBucketer), runs a map-reduce
  summarisation chain over all chunks and over each bucket (SummaryOrchestrator), stores
  the result as one JSON file per video (SummaryStore), and offers an interactive
  question-answering loop whose first output is the stored concise summary (QA session).
  The entry point \<open>src/yts/__main__.py\<close> dispatches between the two commands.

  \<^bold>\<open>Theories.\<close>
  \<^item> \<open>YTS_Prelude\<close>: the Python exceptions as the datatype \<open>exc\<close>, results
    \<open>exc + 'a\<close>, and the built-ins the code relies on (negative list indexing,
    float floor division, \<open>int()\<close>, \<open>str.join\<close>, \<open>str.strip\<close>, \<open>str()\<close> of an int,
    \<open>print\<close>), with shared list and multiset lemmas.
  \<^item> \<open>Chunks\<close>: the fragment and chunk records, the divider
    \<open>divide_transcriptions_into_chunks\<close> (its source, \<open>yts/utils.py\<close>, is not under
    \<open>src/\<close>: it is modelled from the spec, section 4.1) and its call in
    \<open>YoutubeSummarize.prepare\<close> (\<open>prepare_chunks\<close>, summarize.py lines 65--73, with
    \<open>MAXLENGTH = 1000\<close> and \<open>OVERLAP_LENGTH = 5\<close>).
  \<^item> \<open>Buckets\<close>: \<open>_divide_chunks_by_time\<close> (summarize.py lines 117--127), statement
    by statement (\<open>bucket_index\<close>, \<open>bucket_append\<close>, \<open>bucket_loop\<close>,
    \<open>divide_chunks_by_time\<close>), and its abstract specification \<open>bucket_spec\<close>.
  \<^item> \<open>Json\<close>: \<open>json.dumps\<close> (\<open>ensure_ascii=False\<close>, default separators) and
    \<open>json.load\<close> on the JSON values the program writes (null, booleans, strings,
    arrays, objects; numbers are not modelled), the decoder as a fuelled recursive
    descent whose fuel is the input length, which is enough because each call consumes
    at least one character.
  \<^item> \<open>Store\<close>: a file system record (files and directories), \<open>os.path\<close> and
    \<open>os.makedirs\<close>, the write at the end of \<open>YoutubeSummarize.run\<close> (\<open>save_summary\<close>)
    and the read of the hint in \<open>__main__.qa\<close> (\<open>read_concise\<close>).
  \<^item> \<open>Summarize\<close>: the class \<open>YoutubeSummarize\<close> as a record, \<open>__init__\<close>,
    \<open>prepare\<close> and \<open>run\<close>. The LLM setup, the title source, the transcript API and the chain are the
    fields of a \<open>services\<close> record (any behaviour, failures included); the program's
    effects are a \<open>world\<close> of the file system and an event log of chain calls and
    sleeps, so that pacing and ordering are explicit.
  \<^item> \<open>QA\<close>: \<open>__main__.py\<close>: the QA loop over explicit input lines and output text, the
    \<open>qa\<close> and \<open>summary\<close> commands and the dispatch; the QA backend (\<open>yts/qa.py\<close>, not
    under \<open>src/\<close>) is a record of operations over any state type. The spec's session
    state machine is the inductive relation \<open>qa_step\<close>.

  \<^bold>\<open>What is proved.\<close>
  \<^item> Chunks (C1--C3): chunks are fragment groups with a sliding overlap of exactly five
    fragments whose de-duplicated concatenation is the transcript; all but the last reach
    the 1000-character threshold; start order is kept.
  \<^item> Buckets (C4--C9): the loop refines \<open>bucket_spec\<close>; no chunk is lost or duplicated;
    order is kept; at most \<open>split_num + 1\<close> non-empty buckets; the index is monotone;
    IndexError on no chunks, ZeroDivisionError on a transcript shorter than
    \<open>split_num\<close> seconds. (Evaluating the spec's 0--90 s scenario, lemma
    \<open>example_timeline_buckets\<close>, gives six buckets, not five.)
  \<^item> Store (C10--C13): when saving succeeds, what it writes, that it touches no other
    file, the save/read round trip through the JSON encoder and decoder
    (\<open>json_roundtrip\<close>), and every branch of the read.
  \<^item> Summarize (C14--C21): fail-fast (a failed run changes no file), the stored record
    on success, the exact call/sleep trace on success, the exact trace on failure (the
    log ends with the failing call, all earlier calls having succeeded), call bounds,
    every branch of \<open>__init__\<close> (including a failing LLM setup) and of \<open>prepare\<close>, and
    the object's well-formedness (\<open>ys_wf\<close>) established by \<open>__init__\<close> and kept by
    \<open>prepare\<close>.
  \<^item> QA (C22--C28): termination of the loop exactly on a blank line (else EOFError), its
    output, refinement of the session machine in both directions, the branches before
    the loop, and the summary command's output and its failure without output or file
    change.
  \<^item> Across components (C29): after a successful \<open>--summary\<close> run, a QA session on the
    same video prints that run's concise summary first.
  \<^item> C30, C31: a run on a transcript shorter than five seconds raises ZeroDivisionError
    after its concise call, writing nothing; the QA loop sends the backend exactly the
    stripped queries before the first blank line, in order.

  \<^bold>\<open>Modelling choices.\<close> Strings are byte strings (UTF-8 of the Python text), and the
  file's locale encoding is taken to be UTF-8: \<open>open(p, "w")\<close> followed by \<open>f.write\<close> is one
  update that either fails before touching the file or stores the text. In another locale
  \<open>ensure_ascii=False\<close> text can fail to encode after \<open>open\<close> has truncated the file;
  that path is not modelled, and the frame and fail-fast theorems (C11, C14, C28) rely on
  this choice. Directories are a flat set: \<open>os.makedirs\<close> adds the summary directory
  itself and neither creates nor checks its ancestors. \<open>str.strip\<close> and \<open>repr\<close> are
  modelled on ASCII bytes only (non-ASCII spaces such as U+3000 are not stripped). Floats
  are \<open>real\<close>: rounding, infinities and NaN are not modelled. Each loop of the source is a
  structural recursion over the list it iterates, so every operation is total and
  executable; the only fuel is the JSON decoder's.

  \<^bold>\<open>Not modelled.\<close> LangChain's map-reduce chain, \<open>YouTubeTranscriptApi\<close> and
  \<open>pytube\<close> are third-party libraries the sources only call: they are parameters, so
  the theorems hold for any behaviour of theirs. \<open>setup_llm_from_environment\<close>
  (\<open>yts/utils.py\<close>) is the \<open>sv_setup_llm\<close> parameter, whose failure \<open>__init__\<close>
  propagates. \<open>load_summarize_chain\<close> (summarize.py lines 77--83) is taken to succeed:
  only the configuration it is given is modelled, not a failure of the library's
  constructor. The chain's verbose output under \<open>--debug\<close> and \<open>dotenv\<close> are not
  modelled; \<open>argparse\<close> parsing is replaced by its result, the \<open>Args\<close> record. The
  asyncio calls are modelled as the one awaited call each of them is.
\<close>

section \<open>Properties across components\<close>

text \<open>C29 (summary then QA): after \<open>python -m yts --summary\<close> succeeds, what it printed
  is the formatted summary, and a later QA session on the same video (with a working
  backend) first prints that summary's concise text, read back from the store, before
  its loop's own output.\<close>

theorem summary_then_qa:
  assumes "main qb sv environ args w lines = RanSummary (Inr ()) w' ob"
    and "qb_init qb (args_vid args) (args_source args) (args_detail args) (args_debug args) = Inr y"
    and "qb_prepare_query qb y = Inr y1"
  shows "\<exists>s. ob = summary_output s \<and>
           main qb sv environ (args\<lparr>args_summary := False\<rparr>) w' lines' =
             (case qa_loop qb (args_detail args) y1 lines' [] of
                (r, q', rest, ob') \<Rightarrow> RanQA r rest (''(Summary) '' @ sum_concise s @ newline @ newline @ ob'))"
proof -
  have sc: "summary_cmd sv environ args w = (Inr (), w', ob)"
    using main_RanSummary [OF assms(1)] by simp
  obtain dir ys' s where dir: "environ ''SUMMARY_STORE_DIR'' = Some dir"
    and f: "summary_file ys' = dir @ ''/'' @ args_vid args"
    and r: "run sv ys' w = (Inr s, w')" and ob: "ob = summary_output s"
    using summary_cmd_Inr [OF sc] by metis
  have "read_concise (dir @ ''/'' @ args_vid args) (w_fs w') = Inr (Some (JString (sum_concise s)))"
    using run_saved [OF r] f by simp
  moreover have "qb_init qb (args_vid (args\<lparr>args_summary := False\<rparr>)) (args_source (args\<lparr>args_summary := False\<rparr>))
      (args_detail (args\<lparr>args_summary := False\<rparr>)) (args_debug (args\<lparr>args_summary := False\<rparr>)) = Inr y"
    using assms(2) by simp
  ultimately have "qa qb environ (args\<lparr>args_summary := False\<rparr>) (w_fs w') lines' =
        (case qa_loop qb (args_detail args) y1 lines' [] of
           (r, q', rest, ob') \<Rightarrow> (r, rest, ''(Summary) '' @ sum_concise s @ newline @ newline @ ob'))"
    using qa_hint [where qb = qb and environ = environ and args = "args\<lparr>args_summary := False\<rparr>", OF _ assms(3) dir]
    by (simp add: hint_text_def py_str_json_def)
  then show ?thesis using ob by (auto simp: main_def split: prod.splits)
qed

theorem summary_then_qa_witness:
  "\<exists>s :: SummaryRecord. main echo_backend example_services example_env (summary_args\<lparr>args_summary := False\<rparr>)
          (fst (snd (summary_cmd example_services example_env summary_args example_world))) [] =
        RanQA (Inl EOFError) [] (''(Summary) '' @ sum_concise s @ newline @ newline @ ''Query: '')"
proof -
  obtain w' ob where e: "summary_cmd example_services example_env summary_args example_world = (Inr (), w', ob)"
    using example_summary_cmd by blast
  have m: "main echo_backend example_services example_env summary_args example_world [] = RanSummary (Inr ()) w' ob"
    using e by (simp add: main_def summary_args_def)
  have "\<exists>s :: SummaryRecord. main echo_backend example_services example_env (summary_args\<lparr>args_summary := False\<rparr>) w' [] =
      RanQA (Inl EOFError) [] (''(Summary) '' @ sum_concise s @ newline @ newline @ ''Query: '')"
    using summary_then_qa [OF m, of 0 0 "[]"] by (simp add: echo_backend_def) blast
  then show ?thesis using e by simp
qed

end
